theory Spec2Isabelle
  imports Main
begin

section \<open>The PC2 service supervisor (pc2Manager)\<close>

text \<open>
  The supervisor keeps a handful of module-level variables (the tracked child process,
  the log buffer, the selected environment) and talks to the host through the file
  system, child processes, HTTP probes and timers.  Here the variables and the host
  make up one \<open>state\<close> record that every operation takes and returns; what the host
  answers during a call (probe results, delivered signals, events of the child) is an
  argument of the operation.  Handlers run to completion, as JavaScript handlers do, so
  each handler is one function on the state.

  The repository holds several generations of the manager.  The definitions follow the
  latest one, which runs the service natively on every platform; the generation in
  \<open>pc2Manager.ts\<close> that goes through WSL on Windows has the same \<open>emitLog\<close>,
  \<open>getLogs\<close>, \<open>getStatus\<close>, \<open>setEnvironment\<close> and the same guards and handlers in
  \<open>startPC2\<close> and \<open>stopPC2\<close>, and differs in the commands it hands to the host.
\<close>

subsection \<open>Data\<close>

datatype PC2Status = Running | Stopped | Starting | Stopping | Error | NotInstalled

datatype PC2Environment = Default | Dev | Custom

datatype signal = SIGTERM | SIGKILL

text \<open>A \<open>ChildProcess\<close> handle: \<open>killed\<close> says that a signal was delivered through it.\<close>

record ChildProcess =
  pid :: nat
  killed :: bool

text \<open>A JavaScript \<open>Error\<close>, by its message, and how a promise settles.\<close>

datatype js_error = JsError string

datatype outcome = Resolved | Rejected js_error

text \<open>What the supervisor does to the host, in the order it does it.\<close>

datatype io =
    Fetch string
  | Exec string
  | ExecSync string
  | Spawn nat string "string list" string bool
  | Kill nat signal
  | Download
  | Rename string string
  | RmSync string
  | Progress string
  | SendStatus PC2Status

text \<open>
  Constants of the host process: \<open>process.platform === 'win32'\<close>, \<open>os.homedir()\<close>,
  \<open>process.platform\<close>, \<open>process.arch\<close>, and the locale's rendering of a time of day
  (\<open>toLocaleTimeString\<close>) from the clock in milliseconds.
\<close>

record host =
  IS_WINDOWS :: bool
  HOME :: string
  platform :: string
  arch :: string
  localeTime :: "nat \<Rightarrow> string"

record state =
  pc2Process :: "ChildProcess option"
  logBuffer :: "string list"
  currentEnv :: PC2Environment
  customPath :: string
  custom_dir :: string
  custom_nodeDir :: string
  statusEvents :: "PC2Status list"
  logEvents :: "string list"
  files :: "string set"
  now :: nat
  nextPid :: nat
  trace :: "io list"

definition MAX_LOG_LINES :: nat where
  "MAX_LOG_LINES = 500"

definition PC2_URL :: string where
  "PC2_URL = ''http://localhost:4200''"

definition NODE_VERSION :: string where
  "NODE_VERSION = ''22.13.1''"

subsection \<open>Strings and arrays of the JavaScript library\<close>

text \<open>\<open>Array.prototype.join\<close> with a separator.\<close>

fun join :: "string \<Rightarrow> string list \<Rightarrow> string" where
  "join sep [] = []"
| "join sep [x] = x"
| "join sep (x # y # ys) = x @ sep @ join sep (y # ys)"

text \<open>
  \<open>Array.prototype.slice(start)\<close> for an integral \<open>start\<close>: a negative start counts
  from the end and is clamped at the first element, a start beyond the end gives the
  empty array.  \<open>-0\<close> is \<open>0\<close>.
\<close>

definition slice_from :: "int \<Rightarrow> 'a list \<Rightarrow> 'a list" where
  "slice_from start xs =
     (let len = int (length xs);
          k = (if start < 0 then max (len + start) 0 else min start len)
      in drop (nat k) xs)"

text \<open>\<open>String.prototype.includes\<close>: \<open>pat\<close> occurs in \<open>s\<close> as a contiguous run.\<close>

fun starts_with :: "string \<Rightarrow> string \<Rightarrow> bool" where
  "starts_with [] s = True"
| "starts_with (p # ps) [] = False"
| "starts_with (p # ps) (c # cs) = (p = c \<and> starts_with ps cs)"

fun includes_str :: "string \<Rightarrow> string \<Rightarrow> bool" where
  "includes_str [] pat = (pat = [])"
| "includes_str (c # cs) pat = (starts_with pat (c # cs) \<or> includes_str cs pat)"

subsection \<open>Events to subscribers and the log buffer\<close>

text \<open>
  \<open>emitStatus\<close> hands the status to every status listener; \<open>statusEvents\<close> is the
  sequence handed out so far.
\<close>

definition emitStatus :: "state \<Rightarrow> PC2Status \<Rightarrow> state" where
  "emitStatus s status = s\<lparr>statusEvents := statusEvents s @ [status]\<rparr>"

definition logMessage :: "host \<Rightarrow> state \<Rightarrow> string \<Rightarrow> string" where
  "logMessage h s message = ''['' @ localeTime h (now s) @ ''] '' @ message"

text \<open>
  \<open>emitLog\<close>: stamp the message, push it on the buffer, shift the oldest line out when
  the buffer has grown beyond \<open>MAX_LOG_LINES\<close>, hand the line to the log listeners.
\<close>

definition emitLog :: "host \<Rightarrow> state \<Rightarrow> string \<Rightarrow> state" where
  "emitLog h s message =
     (let line = logMessage h s message;
          pushed = logBuffer s @ [line];
          buf = (if length pushed > MAX_LOG_LINES then tl pushed else pushed)
      in s\<lparr>logBuffer := buf, logEvents := logEvents s @ [line]\<rparr>)"

text \<open>
  \<open>getLogs(lines)\<close>: \<open>logBuffer.slice(-lines).join('\n')\<close>.  A call without argument
  takes the default, 100.
\<close>

definition getLogs :: "state \<Rightarrow> int \<Rightarrow> string" where
  "getLogs s lines = join [CHR 0x0A] (slice_from (- lines) (logBuffer s))"

definition getLogs_default :: "state \<Rightarrow> string" where
  "getLogs_default s = getLogs s 100"

subsection \<open>Paths and the file system\<close>

text \<open>
  \<open>path.join\<close> puts the platform's separator between the segments that are not empty.
  (Node also normalises the result; the segments joined here hold no \<open>.\<close> or \<open>..\<close>.)
  \<open>path.dirname\<close> cuts the last segment off.
\<close>

definition sepc :: "host \<Rightarrow> char" where
  "sepc h = (if IS_WINDOWS h then CHR 0x5C else CHR ''/'')"

definition path_join :: "host \<Rightarrow> string list \<Rightarrow> string" where
  "path_join h parts = join [sepc h] (filter (\<lambda>p. p \<noteq> []) parts)"

definition dirname :: "host \<Rightarrow> string \<Rightarrow> string" where
  "dirname h p =
     (let r = dropWhile (\<lambda>c. c \<noteq> sepc h) (rev p)
      in if r = [] then ''.'' else if tl r = [] then [sepc h] else rev (tl r))"

text \<open>
  The file system is the set of the paths that exist, \<open>fs.existsSync\<close> is membership.
  A path is under a directory when it is the directory or continues it after a
  separator; \<open>fs.rmSync(dir, {recursive, force})\<close> removes what is under \<open>dir\<close>,
  \<open>fs.renameSync\<close> moves it.
\<close>

definition existsSync :: "state \<Rightarrow> string \<Rightarrow> bool" where
  "existsSync s p = (p \<in> files s)"

definition under :: "host \<Rightarrow> string \<Rightarrow> string \<Rightarrow> bool" where
  "under h dir p = (p = dir \<or> starts_with (dir @ [sepc h]) p)"

definition rmSync :: "host \<Rightarrow> state \<Rightarrow> string \<Rightarrow> state" where
  "rmSync h s dir =
     s\<lparr>files := {p \<in> files s. \<not> under h dir p}, trace := trace s @ [RmSync dir]\<rparr>"

definition renameSync :: "host \<Rightarrow> state \<Rightarrow> string \<Rightarrow> string \<Rightarrow> state" where
  "renameSync h s src dst =
     s\<lparr>files := {p \<in> files s. \<not> under h src p}
                 \<union> (\<lambda>p. dst @ drop (length src) p) ` {p \<in> files s. under h src p},
       trace := trace s @ [Rename src dst]\<rparr>"

subsection \<open>Environments\<close>

text \<open>
  The table \<open>ENVIRONMENTS\<close>: the default and the development root are fixed under the
  home directory, the custom entry is the one \<open>setEnvironment\<close> writes.
\<close>

fun env_dir :: "host \<Rightarrow> state \<Rightarrow> PC2Environment \<Rightarrow> string" where
  "env_dir h s Default = path_join h [HOME h, ''.pc2'']"
| "env_dir h s Dev = path_join h [HOME h, ''pc2.net'']"
| "env_dir h s Custom = custom_dir s"

fun env_nodeDir :: "host \<Rightarrow> state \<Rightarrow> PC2Environment \<Rightarrow> string" where
  "env_nodeDir h s Default = path_join h [HOME h, ''.pc2'', ''pc2-node'']"
| "env_nodeDir h s Dev = path_join h [HOME h, ''pc2.net'', ''pc2-node'']"
| "env_nodeDir h s Custom = custom_nodeDir s"

definition getPC2Dir :: "host \<Rightarrow> state \<Rightarrow> string" where
  "getPC2Dir h s = env_dir h s (currentEnv s)"

definition getPC2NodeDir :: "host \<Rightarrow> state \<Rightarrow> string" where
  "getPC2NodeDir h s = env_nodeDir h s (currentEnv s)"

definition getEnvironment :: "state \<Rightarrow> PC2Environment" where
  "getEnvironment s = currentEnv s"

text \<open>
  \<open>setEnvironment(env, customDir?)\<close>: the selector is stored; a custom root is stored
  only for \<open>env = 'custom'\<close> and a \<open>customDir\<close> that is given and not empty.
\<close>

definition setEnvironment :: "host \<Rightarrow> state \<Rightarrow> PC2Environment \<Rightarrow> string option \<Rightarrow> state" where
  "setEnvironment h s env customDir =
     (let s1 = s\<lparr>currentEnv := env\<rparr>
      in case customDir of
           None \<Rightarrow> s1
         | Some d \<Rightarrow>
             if env = Custom \<and> d \<noteq> []
             then s1\<lparr>customPath := d, custom_dir := d,
                     custom_nodeDir := path_join h [d, ''pc2-node'']\<rparr>
             else s1)"

text \<open>The state of a freshly loaded module, on a given file system and clock.\<close>

definition initial_state :: "string set \<Rightarrow> nat \<Rightarrow> state" where
  "initial_state fs t =
     \<lparr>pc2Process = None, logBuffer = [], currentEnv = Default, customPath = [],
      custom_dir = [], custom_nodeDir = [], statusEvents = [], logEvents = [],
      files = fs, now = t, nextPid = 0, trace = []\<rparr>"

subsection \<open>Status\<close>

definition isInstalled :: "host \<Rightarrow> state \<Rightarrow> bool" where
  "isInstalled h s =
     (let nodeDir = getPC2NodeDir h s
      in existsSync s nodeDir \<and> existsSync s (path_join h [nodeDir, ''dist'', ''index.js'']))"

text \<open>
  One request to the health endpoint: what comes back and after how many milliseconds.
  The request is aborted after 2000 ms; \<open>response.ok\<close> is a status from 200 to 299.
\<close>

datatype response = Http nat | NetworkError

record probe =
  response :: response
  latency :: nat

definition probe_ok :: "probe \<Rightarrow> bool" where
  "probe_ok p =
     (latency p < 2000 \<and> (case response p of Http c \<Rightarrow> 200 \<le> c \<and> c \<le> 299 | NetworkError \<Rightarrow> False))"

definition probe_time :: "probe \<Rightarrow> nat" where
  "probe_time p = min (latency p) 2000"

definition health_url :: string where
  "health_url = PC2_URL @ ''/health''"

definition fetch_health :: "state \<Rightarrow> probe \<Rightarrow> state" where
  "fetch_health s p = s\<lparr>trace := trace s @ [Fetch health_url], now := now s + probe_time p\<rparr>"

text \<open>\<open>pc2Process && !pc2Process.killed\<close>\<close>

definition tracked_alive :: "state \<Rightarrow> bool" where
  "tracked_alive s = (case pc2Process s of None \<Rightarrow> False | Some p \<Rightarrow> \<not> killed p)"

definition getStatus :: "host \<Rightarrow> state \<Rightarrow> probe \<Rightarrow> PC2Status \<times> state" where
  "getStatus h s p =
     (if \<not> isInstalled h s then (NotInstalled, s)
      else let s1 = fetch_health s p
           in if probe_ok p then (Running, s1)
              else if tracked_alive s1 then (Starting, s1)
              else (Stopped, s1))"

subsection \<open>The child process and its handlers\<close>

text \<open>Decimal rendering of a number in a template string.\<close>

definition digit :: "nat \<Rightarrow> char" where
  "digit n = ''0123456789'' ! (n mod 10)"

function show_nat :: "nat \<Rightarrow> string" where
  "show_nat n = (if n < 10 then [digit n] else show_nat (n div 10) @ [digit n])"
  by pat_completeness auto
termination
  by (relation "measure id") auto

declare show_nat.simps [simp del]

definition show_int :: "int \<Rightarrow> string" where
  "show_int i = (if i < 0 then ''-'' @ show_nat (nat (- i)) else show_nat (nat i))"

text \<open>
  \<open>data.toString().split('\n').filter(l => l.trim())\<close>: the lines of a chunk that hold
  more than white space.  Strings are bytes here, and white space is the ASCII white
  space; the Unicode spaces that \<open>trim\<close> strips as well are not told apart.
\<close>

fun split_on :: "char \<Rightarrow> string \<Rightarrow> string list" where
  "split_on c [] = [[]]"
| "split_on c (x # xs) =
     (if x = c then [] # split_on c xs
      else (case split_on c xs of [] \<Rightarrow> [[x]] | w # ws \<Rightarrow> (x # w) # ws))"

definition is_space :: "char \<Rightarrow> bool" where
  "is_space c = (c \<in> {CHR '' '', CHR 0x09, CHR 0x0A, CHR 0x0B, CHR 0x0C, CHR 0x0D})"

definition data_lines :: "string \<Rightarrow> string list" where
  "data_lines d = filter (\<lambda>l. \<exists>c \<in> set l. \<not> is_space c) (split_on (CHR 0x0A) d)"

text \<open>
  \<open>spawn\<close> makes a new child and tracks it; the handle starts with \<open>killed = false\<close>.
  On Windows the child is started through a shell.
\<close>

definition spawn_child :: "host \<Rightarrow> state \<Rightarrow> string \<Rightarrow> string list \<Rightarrow> string \<Rightarrow> state" where
  "spawn_child h s cmd args cwd =
     s\<lparr>pc2Process := Some \<lparr>pid = nextPid s, killed = False\<rparr>,
       nextPid := Suc (nextPid s),
       trace := trace s @ [Spawn (nextPid s) cmd args cwd (IS_WINDOWS h)]\<rparr>"

text \<open>
  \<open>pc2Process.kill(signal)\<close>: the signal is sent to the tracked child; the handle is
  marked \<open>killed\<close> when the host delivered it.
\<close>

definition kill_tracked :: "state \<Rightarrow> signal \<Rightarrow> bool \<Rightarrow> state" where
  "kill_tracked s sig delivered =
     (case pc2Process s of
        None \<Rightarrow> s
      | Some p \<Rightarrow> s\<lparr>pc2Process := Some (p\<lparr>killed := killed p \<or> delivered\<rparr>),
                    trace := trace s @ [Kill (pid p) sig]\<rparr>)"

text \<open>
  What a child can raise: a chunk on stdout or stderr, \<open>'error'\<close> with a message,
  \<open>'exit'\<close> with an exit code or the name of the signal that ended it.
\<close>

datatype child_event =
    StdoutData string
  | StderrData string
  | ErrorEvent string
  | ExitEvent "int option" "string option"

definition on_stdout :: "host \<Rightarrow> state \<Rightarrow> string \<Rightarrow> state" where
  "on_stdout h s d = foldl (emitLog h) s (data_lines d)"

definition on_stderr :: "host \<Rightarrow> state \<Rightarrow> string \<Rightarrow> state" where
  "on_stderr h s d = foldl (\<lambda>s' l. emitLog h s' (''[stderr] '' @ l)) s (data_lines d)"

definition on_error :: "host \<Rightarrow> state \<Rightarrow> string \<Rightarrow> state" where
  "on_error h s msg =
     (emitLog h (emitStatus s Error) (''Failed to start PC2: '' @ msg))\<lparr>pc2Process := None\<rparr>"

definition on_exit :: "host \<Rightarrow> state \<Rightarrow> int option \<Rightarrow> string option \<Rightarrow> state" where
  "on_exit h s code sig =
     (let s1 = (case code of
                  Some c \<Rightarrow> emitLog h s (''PC2 exited with code '' @ show_int c)
                | None \<Rightarrow>
                    (case sig of
                       None \<Rightarrow> s
                     | Some g \<Rightarrow> if g \<noteq> [] then emitLog h s (''PC2 was killed with signal '' @ g)
                                 else s))
      in emitStatus (s1\<lparr>pc2Process := None\<rparr>) Stopped)"

fun handle_event :: "host \<Rightarrow> state \<Rightarrow> child_event \<Rightarrow> state" where
  "handle_event h s (StdoutData d) = on_stdout h s d"
| "handle_event h s (StderrData d) = on_stderr h s d"
| "handle_event h s (ErrorEvent msg) = on_error h s msg"
| "handle_event h s (ExitEvent code sig) = on_exit h s code sig"

text \<open>The error of the first \<open>'error'\<close> event, which is the one that rejects the promise.\<close>

fun first_error :: "child_event list \<Rightarrow> js_error option" where
  "first_error [] = None"
| "first_error (ErrorEvent msg # evs) = Some (JsError msg)"
| "first_error (ev # evs) = first_error evs"

text \<open>A promise settles once: an earlier rejection wins over the later settlement.\<close>

definition settle :: "js_error option \<Rightarrow> outcome \<Rightarrow> outcome" where
  "settle early final = (case early of Some e \<Rightarrow> Rejected e | None \<Rightarrow> final)"

subsection \<open>Starting\<close>

text \<open>
  \<open>waitForServer\<close>: while less than \<open>timeout\<close> ms have passed, probe the health
  endpoint, return on \<open>response.ok\<close>, else sleep 1000 ms.  \<open>probes i\<close> is what the host
  answers to the \<open>i\<close>-th request.  The loop gives back whether the server answered, the
  time that passed and the number of requests made.
\<close>

function waitForServer_loop :: "(nat \<Rightarrow> probe) \<Rightarrow> nat \<Rightarrow> nat \<Rightarrow> nat \<Rightarrow> bool \<times> nat \<times> nat" where
  "waitForServer_loop probes timeout elapsed i =
     (if elapsed < timeout
      then (if probe_ok (probes i) then (True, elapsed + probe_time (probes i), Suc i)
            else waitForServer_loop probes timeout (elapsed + probe_time (probes i) + 1000) (Suc i))
      else (False, elapsed, i))"
  by pat_completeness auto
termination
  by (relation "measure (\<lambda>(probes, timeout, elapsed, i). timeout - elapsed)") auto

declare waitForServer_loop.simps [simp del]

text \<open>
  The time, counted from the call of \<open>waitForServer\<close>, at which the \<open>i\<close>-th health
  request is sent when none before it was answered with 2xx: every earlier request
  took its time (at most 2000 ms) and was followed by a sleep of 1000 ms.  The request
  falls into the window of \<open>timeout\<close> ms when this time is below \<open>timeout\<close>.
\<close>

fun request_start :: "(nat \<Rightarrow> probe) \<Rightarrow> nat \<Rightarrow> nat" where
  "request_start probes 0 = 0"
| "request_start probes (Suc i) = request_start probes i + probe_time (probes i) + 1000"

definition timeout_error :: js_error where
  "timeout_error = JsError ''Timeout waiting for server to start''"

definition waitForServer :: "state \<Rightarrow> (nat \<Rightarrow> probe) \<Rightarrow> bool \<times> state" where
  "waitForServer s probes =
     (case waitForServer_loop probes 30000 0 0 of
        (ready, elapsed, n) \<Rightarrow>
          (ready, s\<lparr>now := now s + elapsed, trace := trace s @ replicate n (Fetch health_url)\<rparr>))"

text \<open>
  What the host answers during one \<open>startPC2\<close>: the path \<open>findNodePath()\<close> comes up
  with (it reads environment variables and directory listings, which are the host's),
  the events the child raises while the call waits for the server, the answers to the
  health requests, and whether the signal of the failure path is delivered.
\<close>

record start_env =
  se_nodePath :: string
  se_during_wait :: "child_event list"
  se_probes :: "nat \<Rightarrow> probe"
  se_kill_delivered :: bool

text \<open>
  The body of the promise in \<open>startPC2\<close>, up to the wait: log, spawn, register the
  handlers, log; the events of the child that arrive during the wait run their handlers.
\<close>

definition spawn_phase :: "host \<Rightarrow> state \<Rightarrow> string \<Rightarrow> start_env \<Rightarrow> state" where
  "spawn_phase h s nodeDir e =
     (let distPath = path_join h [nodeDir, ''dist'', ''index.js''];
          s1 = emitLog h s (''Using node: '' @ se_nodePath e);
          s2 = emitLog h s1 (''Starting: '' @ distPath);
          s3 = spawn_child h s2 (se_nodePath e) [''dist/index.js''] nodeDir;
          s4 = emitLog h s3 ''Process spawned, waiting for server to be ready...''
      in foldl (handle_event h) s4 (se_during_wait e))"

text \<open>The \<open>then\<close> callback of \<open>waitForServer()\<close>.\<close>

definition start_ready :: "host \<Rightarrow> state \<Rightarrow> state" where
  "start_ready h s = emitLog h (emitStatus s Running) ''PC2 is now running!''"

text \<open>
  The \<open>catch\<close> callback: \<open>'error'\<close>, the log line with the error's message, and a kill
  of the child that is still tracked and not killed, whose handle is cleared.
\<close>

definition start_failed :: "host \<Rightarrow> state \<Rightarrow> start_env \<Rightarrow> state" where
  "start_failed h s e =
     (let s1 = emitLog h (emitStatus s Error)
                 (''Failed to start: '' @ ''Timeout waiting for server to start'')
      in if tracked_alive s1
         then (kill_tracked s1 SIGTERM (se_kill_delivered e))\<lparr>pc2Process := None\<rparr>
         else s1)"

definition spawn_and_wait :: "host \<Rightarrow> state \<Rightarrow> string \<Rightarrow> start_env \<Rightarrow> outcome \<times> state" where
  "spawn_and_wait h s nodeDir e =
     (let early = first_error (se_during_wait e)
      in case waitForServer (spawn_phase h s nodeDir e) (se_probes e) of
           (True, s6) \<Rightarrow> (settle early Resolved, start_ready h s6)
         | (False, s6) \<Rightarrow> (settle early (Rejected timeout_error), start_failed h s6 e))"

definition startPC2 :: "host \<Rightarrow> state \<Rightarrow> start_env \<Rightarrow> outcome \<times> state" where
  "startPC2 h s e =
     (let nodeDir = getPC2NodeDir h s
      in if \<not> isInstalled h s
         then (Resolved, emitLog h (emitStatus s NotInstalled)
                           ''PC2 is not installed. Please install first.'')
         else if tracked_alive s
         then (Resolved, emitLog h s ''PC2 is already running'')
         else spawn_and_wait h
                (emitLog h (emitStatus s Starting) (''Starting PC2 from '' @ nodeDir @ ''...''))
                nodeDir e)"

subsection \<open>Stopping\<close>

text \<open>
  What the host answers during one \<open>stopPC2\<close>: whether SIGTERM and SIGKILL are
  delivered, the events the child raises in the 3000 ms of grace, and whether some
  process is bound to port 4200 (the callback of the port command ignores what the
  command found).
\<close>

record stop_env =
  st_term_delivered :: bool
  st_during_grace :: "child_event list"
  st_kill_delivered :: bool
  st_port_bound :: bool

definition port_kill_cmd :: "host \<Rightarrow> string" where
  "port_kill_cmd h =
     (if IS_WINDOWS h
      then ''for /f '' @ [CHR 0x22] @ ''tokens=5'' @ [CHR 0x22] @ '' %a in ('' @ [CHR 0x27]
           @ ''netstat -ano ^| findstr :4200 ^| findstr LISTENING'' @ [CHR 0x27]
           @ '') do taskkill /F /PID %a 2>nul''
      else ''lsof -ti:4200 | xargs kill -9 2>/dev/null || true'')"

definition stopPC2_begin :: "host \<Rightarrow> state \<Rightarrow> state" where
  "stopPC2_begin h s = emitLog h (emitStatus s Stopping) ''Stopping PC2...''"

text \<open>The callback of the 3000 ms timer.\<close>

definition stopPC2_timer :: "host \<Rightarrow> state \<Rightarrow> bool \<Rightarrow> state" where
  "stopPC2_timer h s delivered =
     (let s1 = (if tracked_alive s
                then kill_tracked (emitLog h s ''Force killing PC2...'') SIGKILL delivered
                else s)
      in emitLog h (emitStatus (s1\<lparr>pc2Process := None\<rparr>) Stopped) ''PC2 stopped'')"

text \<open>The branch without a tracked, not yet killed process: the port command, then its callback.\<close>

definition stopPC2_port :: "host \<Rightarrow> state \<Rightarrow> state" where
  "stopPC2_port h s =
     emitLog h (emitStatus (s\<lparr>trace := trace s @ [Exec (port_kill_cmd h)]\<rparr>) Stopped)
       ''PC2 stopped''"

definition stopPC2 :: "host \<Rightarrow> state \<Rightarrow> stop_env \<Rightarrow> outcome \<times> state" where
  "stopPC2 h s e =
     (let s1 = stopPC2_begin h s
      in if tracked_alive s1
         then (let s2 = kill_tracked s1 SIGTERM (st_term_delivered e);
                   s3 = foldl (handle_event h) s2 (st_during_grace e);
                   s4 = s3\<lparr>now := now s3 + 3000\<rparr>
               in (Resolved, stopPC2_timer h s4 (st_kill_delivered e)))
         else (Resolved, stopPC2_port h s1))"

definition restartPC2 :: "host \<Rightarrow> state \<Rightarrow> stop_env \<Rightarrow> start_env \<Rightarrow> outcome \<times> state" where
  "restartPC2 h s e1 e2 =
     (let s1 = emitLog h (emitStatus s Starting) ''Restarting PC2...'';
          s2 = snd (stopPC2 h s1 e1);
          s3 = s2\<lparr>now := now s2 + 1000\<rparr>
      in startPC2 h s3 e2)"

text \<open>
  A sequence of calls, each run to its end before the next, with events of the child
  in between.
\<close>

datatype call = CallStart start_env | CallStop stop_env | ChildEvent child_event

fun do_call :: "host \<Rightarrow> state \<Rightarrow> call \<Rightarrow> state" where
  "do_call h s (CallStart e) = snd (startPC2 h s e)"
| "do_call h s (CallStop e) = snd (stopPC2 h s e)"
| "do_call h s (ChildEvent ev) = handle_event h s ev"

definition run :: "host \<Rightarrow> state \<Rightarrow> call list \<Rightarrow> state" where
  "run h s cs = foldl (do_call h) s cs"

subsection \<open>Installing from source\<close>

definition BUNDLED_NODE_DIR :: "host \<Rightarrow> string" where
  "BUNDLED_NODE_DIR h = path_join h [HOME h, ''.elastos'', ''node'']"

definition getBundledNodePath :: "host \<Rightarrow> string" where
  "getBundledNodePath h =
     (if IS_WINDOWS h
      then path_join h [BUNDLED_NODE_DIR h, ''node-v'' @ NODE_VERSION @ ''-win-x64'', ''node.exe'']
      else path_join h [BUNDLED_NODE_DIR h,
                        ''node-v'' @ NODE_VERSION @ ''-'' @ platform h @ ''-'' @ arch h,
                        ''bin'', ''node''])"

definition hasBundledNode :: "host \<Rightarrow> state \<Rightarrow> bool" where
  "hasBundledNode h s = existsSync s (getBundledNodePath h)"

definition findNpmPath :: "host \<Rightarrow> state \<Rightarrow> string" where
  "findNpmPath h s =
     (let bundledNode = getBundledNodePath h;
          npmName = (if IS_WINDOWS h then ''npm.cmd'' else ''npm'');
          npmPath = path_join h [dirname h bundledNode, npmName]
      in if existsSync s bundledNode \<and> existsSync s npmPath then npmPath else npmName)"

text \<open>
  What the host answers during one installation: whether \<open>git --version\<close> runs, how
  the download of the runtime ends (the files it leaves, or the message of its
  error), the path \<open>findNodePath()\<close> comes up with, and for the \<open>i\<close>-th command of the
  pipeline the message of its error, if it ends in one, and what it does to the files.
\<close>

datatype download_result = DownloadOk "string set" | DownloadFailed string

record install_env =
  in_git_ok :: bool
  in_download :: download_result
  in_nodePath :: string
  in_step_error :: "nat \<Rightarrow> string option"
  in_step_files :: "nat \<Rightarrow> string set \<Rightarrow> string set"

definition onProgress :: "state \<Rightarrow> string \<Rightarrow> state" where
  "onProgress s msg = s\<lparr>trace := trace s @ [Progress msg]\<rparr>"

text \<open>\<open>isGitAvailable\<close>: \<open>execSync('git --version')\<close> returns or throws.\<close>

definition isGitAvailable :: "state \<Rightarrow> install_env \<Rightarrow> bool \<times> state" where
  "isGitAvailable s e = (in_git_ok e, s\<lparr>trace := trace s @ [ExecSync ''git --version'']\<rparr>)"

definition git_missing_msg :: "host \<Rightarrow> string" where
  "git_missing_msg h =
     (if IS_WINDOWS h
      then ''Git is not installed. Please download and install Git from https://git-scm.com/download/win then restart the launcher.''
      else ''Git is not installed. Please install git and try again.'')"

definition quoted :: "string \<Rightarrow> string" where
  "quoted x = [CHR 0x22] @ x @ [CHR 0x22]"

text \<open>The array \<open>steps\<close>: each command with its progress label.\<close>

definition install_steps :: "string \<Rightarrow> string \<Rightarrow> string \<Rightarrow> (string \<times> string) list" where
  "install_steps pc2Dir nodeDir npmPath =
     (let npmCmd = quoted npmPath
      in [(''git clone https://github.com/Elacity/pc2.net '' @ quoted pc2Dir,
           ''Cloning repository...''),
          (''cd '' @ quoted pc2Dir @ '' && '' @ npmCmd @ '' install --legacy-peer-deps --ignore-scripts'',
           ''Installing dependencies...''),
          (''cd '' @ quoted nodeDir @ '' && '' @ npmCmd @ '' install --legacy-peer-deps'',
           ''Installing node dependencies...''),
          (''cd '' @ quoted nodeDir @ '' && '' @ npmCmd @ '' run build'',
           ''Building PC2...'')])"

text \<open>
  The loop over the steps: progress label, log line, the command; an error of the
  command is logged and rejects the installation, and the loop is left.
\<close>

fun run_steps :: "host \<Rightarrow> install_env \<Rightarrow> nat \<Rightarrow> (string \<times> string) list \<Rightarrow> state \<Rightarrow> outcome \<times> state" where
  "run_steps h e i [] s = (Resolved, s)"
| "run_steps h e i ((cmd, msg) # rest) s =
     (let s1 = emitLog h (onProgress s msg) msg;
          s2 = s1\<lparr>trace := trace s1 @ [Exec cmd], files := in_step_files e i (files s1)\<rparr>
      in case in_step_error e i of
           Some m \<Rightarrow> (Rejected (JsError m), emitLog h s2 (''Error: '' @ m))
         | None \<Rightarrow> run_steps h e (Suc i) rest s2)"

text \<open>
  Step 1 of the installation: fetch the runtime when it is not there; a failure is
  only logged.  The download with its unpacking is one action on the host, which
  leaves the runtime's files or ends in an error; its own progress messages, the
  directory it creates and the command that unpacks the archive are inside that action.
\<close>

definition ensure_node :: "host \<Rightarrow> state \<Rightarrow> install_env \<Rightarrow> state" where
  "ensure_node h s e =
     (if hasBundledNode h s then s
      else (let s1 = onProgress s (''Downloading Node.js '' @ NODE_VERSION @ '' LTS...'');
                s2 = emitLog h s1 (''Downloading bundled Node.js '' @ NODE_VERSION
                                    @ '' LTS for compatibility...'');
                s3 = s2\<lparr>trace := trace s2 @ [Download]\<rparr>
            in case in_download e of
                 DownloadOk new \<Rightarrow>
                   emitLog h (s3\<lparr>files := files s3 \<union> new\<rparr>) (''Node.js '' @ NODE_VERSION @ '' ready'')
               | DownloadFailed m \<Rightarrow>
                   emitLog h (emitLog h s3 (''Warning: Could not download bundled Node.js: '' @ m))
                     ''Will try to use system Node.js...''))"

text \<open>A directory at the target that holds no \<open>package.json\<close> is moved aside.\<close>

definition backup_existing :: "host \<Rightarrow> state \<Rightarrow> string \<Rightarrow> state" where
  "backup_existing h s pc2Dir =
     (if existsSync s pc2Dir \<and> \<not> existsSync s (path_join h [pc2Dir, ''package.json''])
      then (let backupDir = pc2Dir @ ''_backup_'' @ show_nat (now s);
                s1 = emitLog h s (''Backing up existing '' @ pc2Dir @ '' to '' @ backupDir)
            in renameSync h s1 pc2Dir backupDir)
      else s)"

definition installFromSource :: "host \<Rightarrow> state \<Rightarrow> string \<Rightarrow> string \<Rightarrow> install_env \<Rightarrow> outcome \<times> state" where
  "installFromSource h s pc2Dir nodeDir e =
     (case isGitAvailable s e of
        (False, s0) \<Rightarrow> (Rejected (JsError (git_missing_msg h)), emitLog h s0 (git_missing_msg h))
      | (True, s0) \<Rightarrow>
          (let s1 = ensure_node h s0 e;
               npmPath = findNpmPath h s1;
               s2 = emitLog h s1 (''Using Node.js: '' @ in_nodePath e);
               s3 = emitLog h s2 (''Using npm: '' @ npmPath);
               s4 = onProgress s3 ''Preparing installation...'';
               s5 = backup_existing h s4 pc2Dir;
               s6 = onProgress s5 ''Cloning repository...''
           in case run_steps h e 0 (install_steps pc2Dir nodeDir npmPath) s6 of
                (Rejected err, s7) \<Rightarrow> (Rejected err, s7)
              | (Resolved, s7) \<Rightarrow>
                  (Resolved, onProgress (emitLog h s7 ''Installation complete!'')
                               ''Installation complete!'')))"

text \<open>The commands of the steps, and the commands run through \<open>exec\<close>, in order.\<close>

definition step_cmds :: "string \<Rightarrow> string \<Rightarrow> string \<Rightarrow> string list" where
  "step_cmds pc2Dir nodeDir npmPath = map fst (install_steps pc2Dir nodeDir npmPath)"


fun execs :: "io list \<Rightarrow> string list" where
  "execs [] = []"
| "execs (Exec c # t) = c # execs t"
| "execs (a # t) = execs t"

subsection \<open>Uninstalling\<close>

text \<open>
  What the host answers during one \<open>uninstallPC2\<close>: the health request of its
  \<open>getStatus\<close> and the answers to its \<open>stopPC2\<close>.
\<close>

record uninstall_env =
  un_probe :: probe
  un_stop :: stop_env

definition safety_error :: js_error where
  "safety_error = JsError ''Safety check failed: refusing to delete this path''"

definition uninstallPC2 :: "host \<Rightarrow> state \<Rightarrow> uninstall_env \<Rightarrow> outcome \<times> state" where
  "uninstallPC2 h s e =
     (let pc2Dir = getPC2Dir h s
      in if \<not> includes_str pc2Dir ''.pc2'' \<and> \<not> includes_str pc2Dir ''pc2.net''
         then (Rejected safety_error, s)
         else (case getStatus h s (un_probe e) of
                 (status, s1) \<Rightarrow>
                   (let s2 = (if status = Running then snd (stopPC2 h s1 (un_stop e)) else s1);
                        s3 = emitLog h s2 (''Uninstalling PC2 from '' @ pc2Dir @ ''...'');
                        s4 = (if existsSync s3 pc2Dir
                              then emitLog h (rmSync h s3 pc2Dir) ''PC2 uninstalled successfully''
                              else s3)
                    in (Resolved, emitStatus s4 NotInstalled))))"

subsection \<open>The callers: the IPC handler and the environment selector\<close>




subsection \<open>A host and states to run the operations on\<close>

definition linux_host :: host where
  "linux_host =
     \<lparr>IS_WINDOWS = False, HOME = ''/home/u'', platform = ''linux'', arch = ''x64'',
      localeTime = (\<lambda>t. ''12:00:00'')\<rparr>"

definition installed_files :: "string set" where
  "installed_files =
     {''/home/u/.pc2'', ''/home/u/.pc2/package.json'', ''/home/u/.pc2/pc2-node'',
      ''/home/u/.pc2/pc2-node/dist'', ''/home/u/.pc2/pc2-node/dist/index.js''}"

definition ok_probe :: probe where
  "ok_probe = \<lparr>response = Http 200, latency = 5\<rparr>"

definition refused_probe :: probe where
  "refused_probe = \<lparr>response = NetworkError, latency = 1\<rparr>"

definition quiet_start :: "(nat \<Rightarrow> probe) \<Rightarrow> start_env" where
  "quiet_start ps =
     \<lparr>se_nodePath = ''node'', se_during_wait = [], se_probes = ps, se_kill_delivered = True\<rparr>"

definition quiet_stop :: stop_env where
  "quiet_stop =
     \<lparr>st_term_delivered = True, st_during_grace = [], st_kill_delivered = True,
      st_port_bound = False\<rparr>"

text \<open>The service installed and started, its first health request answered with 200.\<close>

definition running_state :: state where
  "running_state = snd (startPC2 linux_host (initial_state installed_files 0) (quiet_start (\<lambda>i. ok_probe)))"

text \<open>The same, after a first \<open>stopPC2\<close> has sent SIGTERM and waits for its timer.\<close>

definition stopping_state :: state where
  "stopping_state = kill_tracked (stopPC2_begin linux_host running_state) SIGTERM True"

text \<open>
  The running service after a switch to the development environment, where nothing
  is installed.
\<close>

definition switched_state :: state where
  "switched_state = setEnvironment linux_host running_state Dev None"

text \<open>The running service with a custom root outside the recognised names.\<close>

definition unrelated_state :: state where
  "unrelated_state = setEnvironment linux_host running_state Custom (Some ''/tmp/unrelated'')"

text \<open>A state of two log lines, and one whose buffer is full.\<close>

definition two_lines :: state where
  "two_lines = emitLog linux_host (emitLog linux_host (initial_state {} 0) ''a'') ''b''"

definition full_state :: state where
  "full_state = (initial_state {} 0)\<lparr>logBuffer := replicate 500 ''[12:00:00] x''\<rparr>"

text \<open>
  A host that refuses the first 30 health requests and answers 200 from then on.
\<close>

definition late_host :: "nat \<Rightarrow> probe" where
  "late_host i = (if i < 30 then refused_probe else ok_probe)"

text \<open>
  What \<open>isInstalled\<close> reads of the state: the files, the selected environment and the
  custom service root.
\<close>

definition install_view :: "state \<Rightarrow> string set \<times> PC2Environment \<times> string" where
  "install_view s = (files s, currentEnv s, custom_nodeDir s)"

text \<open>The tracked child is the one spawned last.\<close>

definition tracks_latest :: "state \<Rightarrow> bool" where
  "tracks_latest s = (case pc2Process s of None \<Rightarrow> True | Some p \<Rightarrow> Suc (pid p) = nextPid s)"

text \<open>
  An installation on a host with git where the third command fails, and one where
  git is missing.
\<close>

definition third_fails :: install_env where
  "third_fails =
     \<lparr>in_git_ok = True, in_download = DownloadFailed ''offline'', in_nodePath = ''node'',
      in_step_error = (\<lambda>i. if i = 2 then Some ''Command failed: npm install'' else None),
      in_step_files = (\<lambda>i fs. fs)\<rparr>"

definition no_git :: install_env where
  "no_git = third_fails\<lparr>in_git_ok := False\<rparr>"

definition all_pass :: install_env where
  "all_pass = third_fails\<lparr>in_step_error := (\<lambda>i. None)\<rparr>"

text \<open>Only chunks of output, no \<open>'error'\<close> and no \<open>'exit'\<close>.\<close>

fun data_only :: "child_event list \<Rightarrow> bool" where
  "data_only [] = True"
| "data_only (StdoutData d # evs) = data_only evs"
| "data_only (StderrData d # evs) = data_only evs"
| "data_only (ev # evs) = False"

section \<open>Properties\<close>

lemma emitLog_buffer:
  "logBuffer (emitLog h s m) =
     (if length (logBuffer s) \<ge> MAX_LOG_LINES
      then tl (logBuffer s @ [logMessage h s m])
      else logBuffer s @ [logMessage h s m])"
  by (simp add: emitLog_def Let_def)

lemma slice_from_recent:
  "0 < n \<Longrightarrow> n < int (length xs) \<Longrightarrow> slice_from (- n) xs = drop (length xs - nat n) xs"
  by (simp add: slice_from_def Let_def nat_diff_distrib')

subsection \<open>What the helpers leave alone\<close>

lemma emitStatus_fields [simp]:
  "pc2Process (emitStatus s st) = pc2Process s"
  "trace (emitStatus s st) = trace s"
  "nextPid (emitStatus s st) = nextPid s"
  "files (emitStatus s st) = files s"
  "logBuffer (emitStatus s st) = logBuffer s"
  "now (emitStatus s st) = now s"
  "currentEnv (emitStatus s st) = currentEnv s"
  "custom_dir (emitStatus s st) = custom_dir s"
  "custom_nodeDir (emitStatus s st) = custom_nodeDir s"
  "statusEvents (emitStatus s st) = statusEvents s @ [st]"
  by (simp_all add: emitStatus_def)

lemma emitLog_fields [simp]:
  "pc2Process (emitLog h s m) = pc2Process s"
  "trace (emitLog h s m) = trace s"
  "nextPid (emitLog h s m) = nextPid s"
  "files (emitLog h s m) = files s"
  "now (emitLog h s m) = now s"
  "currentEnv (emitLog h s m) = currentEnv s"
  "custom_dir (emitLog h s m) = custom_dir s"
  "custom_nodeDir (emitLog h s m) = custom_nodeDir s"
  "statusEvents (emitLog h s m) = statusEvents s"
  by (simp_all add: emitLog_def Let_def)

lemma tracked_alive_emit [simp]:
  "tracked_alive (emitLog h s m) = tracked_alive s"
  "tracked_alive (emitStatus s st) = tracked_alive s"
  by (simp_all add: tracked_alive_def)

lemma isInstalled_emit [simp]:
  "isInstalled h (emitLog h' s m) = isInstalled h s"
  "isInstalled h (emitStatus s st) = isInstalled h s"
  by (simp_all add: isInstalled_def getPC2NodeDir_def existsSync_def Let_def, (cases "currentEnv s"; simp)+)

lemma foldl_emitLog_fields [simp]:
  "pc2Process (foldl (\<lambda>s' l. emitLog h s' (f l)) s ls) = pc2Process s"
  "trace (foldl (\<lambda>s' l. emitLog h s' (f l)) s ls) = trace s"
  "nextPid (foldl (\<lambda>s' l. emitLog h s' (f l)) s ls) = nextPid s"
  "statusEvents (foldl (\<lambda>s' l. emitLog h s' (f l)) s ls) = statusEvents s"
  by (induction ls arbitrary: s; simp)+

lemma on_data_fields [simp]:
  "pc2Process (on_stdout h s d) = pc2Process s"
  "trace (on_stdout h s d) = trace s"
  "nextPid (on_stdout h s d) = nextPid s"
  "statusEvents (on_stdout h s d) = statusEvents s"
  "pc2Process (on_stderr h s d) = pc2Process s"
  "trace (on_stderr h s d) = trace s"
  "nextPid (on_stderr h s d) = nextPid s"
  "statusEvents (on_stderr h s d) = statusEvents s"
  using foldl_emitLog_fields [where f = "\<lambda>l. l"] 
  by (simp_all add: on_stdout_def on_stderr_def)

lemma on_exit_fields [simp]:
  "pc2Process (on_exit h s code sig) = None"
  "trace (on_exit h s code sig) = trace s"
  "nextPid (on_exit h s code sig) = nextPid s"
  "statusEvents (on_exit h s code sig) = statusEvents s @ [Stopped]"
  by (simp_all add: on_exit_def Let_def split: option.splits)

lemma on_error_fields [simp]:
  "pc2Process (on_error h s msg) = None"
  "trace (on_error h s msg) = trace s"
  "nextPid (on_error h s msg) = nextPid s"
  "statusEvents (on_error h s msg) = statusEvents s @ [Error]"
  by (simp_all add: on_error_def)

lemma handle_event_keeps [simp]:
  "trace (handle_event h s ev) = trace s"
  "nextPid (handle_event h s ev) = nextPid s"
  by (cases ev; simp)+

lemma handle_event_handle:
  "pc2Process (handle_event h s ev) = pc2Process s \<or> pc2Process (handle_event h s ev) = None"
  by (cases ev) simp_all

lemma handle_events_keep [simp]:
  "trace (foldl (handle_event h) s evs) = trace s"
  "nextPid (foldl (handle_event h) s evs) = nextPid s"
  by (induction evs arbitrary: s; simp)+

lemma handle_events_handle:
  "pc2Process (foldl (handle_event h) s evs) = pc2Process s \<or> pc2Process (foldl (handle_event h) s evs) = None"
proof (induction evs arbitrary: s)
  case Nil
  show ?case by simp
next
  case (Cons ev evs)
  from Cons.IH [of "handle_event h s ev"] handle_event_handle [of h s ev]
  show ?case by auto
qed

lemma handle_events_data_only:
  "data_only evs \<Longrightarrow> pc2Process (foldl (handle_event h) s evs) = pc2Process s
     \<and> statusEvents (foldl (handle_event h) s evs) = statusEvents s"
  by (induction evs arbitrary: s rule: data_only.induct) simp_all


lemma spawn_child_fields [simp]:
  "pc2Process (spawn_child h s c a d) = Some \<lparr>pid = nextPid s, killed = False\<rparr>"
  "nextPid (spawn_child h s c a d) = Suc (nextPid s)"
  "trace (spawn_child h s c a d) = trace s @ [Spawn (nextPid s) c a d (IS_WINDOWS h)]"
  "statusEvents (spawn_child h s c a d) = statusEvents s"
  by (simp_all add: spawn_child_def)

lemma kill_tracked_fields [simp]:
  "nextPid (kill_tracked s sig b) = nextPid s"
  "statusEvents (kill_tracked s sig b) = statusEvents s"
  "pc2Process (kill_tracked s sig b) = map_option (\<lambda>p. p\<lparr>killed := killed p \<or> b\<rparr>) (pc2Process s)"
  by (simp_all add: kill_tracked_def split: option.splits)

lemma waitForServer_result:
  "waitForServer s ps = (r, s') \<Longrightarrow>
     pc2Process s' = pc2Process s \<and> nextPid s' = nextPid s \<and> statusEvents s' = statusEvents s
     \<and> logBuffer s' = logBuffer s \<and> files s' = files s"
  by (auto simp: waitForServer_def split: prod.splits)

lemma tracks_latest_iff:
  "tracks_latest s \<longleftrightarrow> (\<forall>p. pc2Process s = Some p \<longrightarrow> Suc (pid p) = nextPid s)"
  by (simp add: tracks_latest_def split: option.splits)

lemma tracks_latest_emit [simp]:
  "tracks_latest (emitLog h s m) = tracks_latest s"
  "tracks_latest (emitStatus s st) = tracks_latest s"
  by (simp_all add: tracks_latest_iff)

lemma tracks_latest_event:
  "tracks_latest s \<Longrightarrow> tracks_latest (handle_event h s ev)"
  using handle_event_handle [of h s ev] by (auto simp: tracks_latest_iff)

lemma tracks_latest_events:
  "tracks_latest s \<Longrightarrow> tracks_latest (foldl (handle_event h) s evs)"
  by (induction evs arbitrary: s) (simp_all add: tracks_latest_event)

lemma tracks_latest_spawn_phase:
  "tracks_latest (spawn_phase h s nodeDir e)"
  unfolding spawn_phase_def Let_def
  by (rule tracks_latest_events) (simp add: tracks_latest_iff)

lemma tracks_latest_wait:
  "tracks_latest s \<Longrightarrow> waitForServer s ps = (r, s') \<Longrightarrow> tracks_latest s'"
  by (drule waitForServer_result) (simp add: tracks_latest_iff)

lemma tracks_latest_start_failed:
  "tracks_latest s \<Longrightarrow> tracks_latest (start_failed h s e)"
  by (simp add: start_failed_def Let_def tracks_latest_iff)

lemma tracks_latest_spawn_and_wait:
  "tracks_latest (snd (spawn_and_wait h s nodeDir e))"
  using tracks_latest_wait [OF tracks_latest_spawn_phase]
  by (auto simp: spawn_and_wait_def Let_def start_ready_def tracks_latest_start_failed
           split: prod.splits bool.splits)

lemma tracks_latest_start:
  "tracks_latest s \<Longrightarrow> tracks_latest (snd (startPC2 h s e))"
  by (simp add: startPC2_def Let_def tracks_latest_spawn_and_wait)

lemma stopPC2_handle:
  "pc2Process (snd (stopPC2 h s e)) = (if tracked_alive s then None else pc2Process s)"
  by (simp add: stopPC2_def stopPC2_begin_def stopPC2_timer_def stopPC2_port_def Let_def)

lemma stopPC2_nextPid [simp]:
  "nextPid (snd (stopPC2 h s e)) = nextPid s"
  by (simp add: stopPC2_def stopPC2_begin_def stopPC2_timer_def stopPC2_port_def Let_def)

lemma tracks_latest_stop:
  "tracks_latest s \<Longrightarrow> tracks_latest (snd (stopPC2 h s e))"
  by (simp add: tracks_latest_iff stopPC2_handle)

lemma tracks_latest_call:
  "tracks_latest s \<Longrightarrow> tracks_latest (do_call h s c)"
  by (cases c) (simp_all add: tracks_latest_start tracks_latest_stop tracks_latest_event)

lemma tracks_latest_run:
  "tracks_latest s \<Longrightarrow> tracks_latest (run h s cs)"
  unfolding run_def by (induction cs arbitrary: s) (simp_all add: tracks_latest_call)

lemma startPC2_tracked:
  "tracked_alive s \<Longrightarrow>
     startPC2 h s e =
       (Resolved, if isInstalled h s then emitLog h s ''PC2 is already running''
                  else emitLog h (emitStatus s NotInstalled) ''PC2 is not installed. Please install first.'')"
  by (simp add: startPC2_def Let_def)

lemma running_state_eq:
  "running_state =
     \<lparr>pc2Process = Some \<lparr>pid = 0, killed = False\<rparr>,
      logBuffer =
        [''[12:00:00] Starting PC2 from /home/u/.pc2/pc2-node...'',
         ''[12:00:00] Using node: node'',
         ''[12:00:00] Starting: /home/u/.pc2/pc2-node/dist/index.js'',
         ''[12:00:00] Process spawned, waiting for server to be ready...'',
         ''[12:00:00] PC2 is now running!''],
      currentEnv = Default, customPath = [], custom_dir = [], custom_nodeDir = [],
      statusEvents = [Starting, Running],
      logEvents =
        [''[12:00:00] Starting PC2 from /home/u/.pc2/pc2-node...'',
         ''[12:00:00] Using node: node'',
         ''[12:00:00] Starting: /home/u/.pc2/pc2-node/dist/index.js'',
         ''[12:00:00] Process spawned, waiting for server to be ready...'',
         ''[12:00:00] PC2 is now running!''],
      files = installed_files, now = 5, nextPid = 1,
      trace = [Spawn 0 ''node'' [''dist/index.js''] ''/home/u/.pc2/pc2-node'' False,
               Fetch ''http://localhost:4200/health'']\<rparr>"
  by (simp add: running_state_def startPC2_def spawn_and_wait_def spawn_phase_def start_ready_def
        spawn_child_def emitLog_def emitStatus_def logMessage_def MAX_LOG_LINES_def
        waitForServer_def waitForServer_loop.simps isInstalled_def getPC2NodeDir_def existsSync_def
        initial_state_def installed_files_def linux_host_def path_join_def sepc_def quiet_start_def
        ok_probe_def probe_ok_def probe_time_def tracked_alive_def settle_def health_url_def
        PC2_URL_def Let_def)

subsection \<open>Status, stopping, waiting, switching\<close>

lemma switched_state_eq:
  "switched_state = running_state\<lparr>currentEnv := Dev\<rparr>"
  by (simp add: switched_state_def setEnvironment_def)

lemma stopPC2_resolves [simp]: "fst (stopPC2 h s e) = Resolved"
  by (simp add: stopPC2_def Let_def)

lemma stopPC2_last_status [simp]: "last (statusEvents (snd (stopPC2 h s e))) = Stopped"
  by (simp add: stopPC2_def stopPC2_timer_def stopPC2_port_def Let_def)

lemma stopping_state_handle:
  "pc2Process stopping_state = Some \<lparr>pid = 0, killed = True\<rparr>"
  by (simp add: stopping_state_def stopPC2_begin_def running_state_eq)

lemma unrelated_state_dir: "getPC2Dir linux_host unrelated_state = ''/tmp/unrelated''"
  by (simp add: unrelated_state_def setEnvironment_def getPC2Dir_def)

lemma getStatus_not_installed:
  "\<not> isInstalled h s \<Longrightarrow> getStatus h s p = (NotInstalled, s)"
  by (simp add: getStatus_def)

lemma getStatus_probe:
  "isInstalled h s \<Longrightarrow>
     getStatus h s p =
       (if probe_ok p then Running else if tracked_alive s then Starting else Stopped,
        fetch_health s p)"
  by (simp add: getStatus_def Let_def fetch_health_def tracked_alive_def)

lemma getStatus_reads_only:
  "pc2Process (snd (getStatus h s p)) = pc2Process s
   \<and> statusEvents (snd (getStatus h s p)) = statusEvents s
   \<and> logBuffer (snd (getStatus h s p)) = logBuffer s
   \<and> files (snd (getStatus h s p)) = files s
   \<and> currentEnv (snd (getStatus h s p)) = currentEnv s"
  by (simp add: getStatus_def Let_def fetch_health_def)

lemma running_installed: "isInstalled linux_host running_state"
  by (simp add: running_state_eq isInstalled_def getPC2NodeDir_def existsSync_def
        installed_files_def linux_host_def path_join_def sepc_def)

lemma running_tracked: "tracked_alive running_state"
  by (simp add: running_state_eq tracked_alive_def)

lemma spawn_phase_handle:
  "pc2Process (spawn_phase h s nodeDir e) = Some \<lparr>pid = nextPid s, killed = False\<rparr>
   \<or> pc2Process (spawn_phase h s nodeDir e) = None"
  unfolding spawn_phase_def Let_def
  using handle_events_handle [of h "emitLog h (spawn_child h (emitLog h (emitLog h s (''Using node: '' @ se_nodePath e)) (''Starting: '' @ path_join h [nodeDir, ''dist'', ''index.js''])) (se_nodePath e) [''dist/index.js''] nodeDir) ''Process spawned, waiting for server to be ready...''" "se_during_wait e"]
  by simp

lemma spawn_phase_data_only:
  "data_only (se_during_wait e) \<Longrightarrow>
     pc2Process (spawn_phase h s nodeDir e) = Some \<lparr>pid = nextPid s, killed = False\<rparr>"
  unfolding spawn_phase_def Let_def
  by (simp add: handle_events_data_only)

lemma start_failed_result:
  "pc2Process (start_failed h s e) = (if tracked_alive s then None else pc2Process s)
   \<and> last (statusEvents (start_failed h s e)) = Error"
  by (simp add: start_failed_def Let_def)

lemma start_failed_kills:
  "pc2Process s = Some \<lparr>pid = n, killed = False\<rparr> \<Longrightarrow>
     trace (start_failed h s e) = trace s @ [Kill n SIGTERM]"
  by (simp add: start_failed_def Let_def tracked_alive_def kill_tracked_def)

lemma not_alive_cleared: "pc2Process s = None \<Longrightarrow> \<not> tracked_alive s"
  by (simp add: tracked_alive_def)

lemma now_kept [simp]:
  "now (spawn_child h s c a d) = now s"
  "now (on_stdout h s x) = now s"
  "now (on_stderr h s x) = now s"
  "now (on_error h s x) = now s"
  "now (on_exit h s code sig) = now s"
proof -
  have f: "\<And>f ls s. now (foldl (\<lambda>s' l. emitLog h s' (f l)) s ls) = now s"
    subgoal for f ls s by (induction ls arbitrary: s) simp_all
    done
  show "now (spawn_child h s c a d) = now s" by (simp add: spawn_child_def)
  show "now (on_stdout h s x) = now s" using f [of "\<lambda>l. l"] by (simp add: on_stdout_def)
  show "now (on_stderr h s x) = now s" using f by (simp add: on_stderr_def)
  show "now (on_error h s x) = now s" by (simp add: on_error_def)
  show "now (on_exit h s code sig) = now s"
    by (simp add: on_exit_def Let_def emitStatus_def split: option.splits)
qed

lemma now_events [simp]: "now (foldl (handle_event h) s evs) = now s"
proof (induction evs arbitrary: s)
  case Nil
  show ?case by simp
next
  case (Cons ev evs)
  then show ?case by (cases ev) simp_all
qed

lemma spawn_phase_now: "now (spawn_phase h s nodeDir e) = now s"
  by (simp add: spawn_phase_def Let_def)




subsection \<open>The installation pipeline\<close>

lemma execs_append [simp]: "execs (xs @ ys) = execs xs @ execs ys"
  by (induction xs rule: execs.induct) simp_all

lemma onProgress_fields [simp]:
  "trace (onProgress s m) = trace s @ [Progress m]"
  "files (onProgress s m) = files s"
  by (simp_all add: onProgress_def)

lemma execs_ensure_node [simp]: "execs (trace (ensure_node h s e)) = execs (trace s)"
  by (simp add: ensure_node_def Let_def split: download_result.splits)

lemma execs_backup [simp]: "execs (trace (backup_existing h s d)) = execs (trace s)"
  by (simp add: backup_existing_def renameSync_def Let_def)

lemma run_steps_all_pass:
  "(\<forall>j < length steps. in_step_error e (i + j) = None) \<Longrightarrow>
     fst (run_steps h e i steps s) = Resolved
     \<and> execs (trace (snd (run_steps h e i steps s))) = execs (trace s) @ map fst steps"
proof (induction steps arbitrary: i s)
  case Nil
  show ?case by simp
next
  case (Cons st steps)
  obtain cmd msg where st: "st = (cmd, msg)" by (cases st)
  from Cons.prems have head: "in_step_error e i = None" by force
  have "\<forall>j < length steps. in_step_error e (Suc i + j) = None"
  proof (intro allI impI)
    fix j assume "j < length steps"
    with Cons.prems have "in_step_error e (i + Suc j) = None" by force
    then show "in_step_error e (Suc i + j) = None" by simp
  qed
  from Cons.IH [OF this] head show ?case by (simp add: st Let_def)
qed

lemma run_steps_first_failure:
  "k < length steps \<Longrightarrow> (\<forall>j < k. in_step_error e (i + j) = None) \<Longrightarrow>
   in_step_error e (i + k) = Some m \<Longrightarrow>
     fst (run_steps h e i steps s) = Rejected (JsError m)
     \<and> execs (trace (snd (run_steps h e i steps s))) = execs (trace s) @ take (Suc k) (map fst steps)"
proof (induction steps arbitrary: i s k)
  case Nil
  then show ?case by simp
next
  case (Cons st steps)
  obtain cmd msg where st: "st = (cmd, msg)" by (cases st)
  show ?case
  proof (cases k)
    case 0
    with Cons.prems show ?thesis by (simp add: st Let_def)
  next
    case (Suc k')
    with Cons.prems have head: "in_step_error e i = None" by force
    have len: "k' < length steps" using Cons.prems Suc by simp
    have pre: "\<forall>j < k'. in_step_error e (Suc i + j) = None"
    proof (intro allI impI)
      fix j assume "j < k'"
      with Cons.prems Suc have "in_step_error e (i + Suc j) = None" by force
      then show "in_step_error e (Suc i + j) = None" by simp
    qed
    have fail: "in_step_error e (Suc i + k') = Some m" using Cons.prems Suc by simp
    from Cons.IH [OF len pre fail] head Suc show ?thesis by (simp add: st Let_def)
  qed
qed

lemma step_cmds_length [simp]: "length (install_steps d n npm) = 4"
  by (simp add: install_steps_def Let_def)

lemma installFromSource_no_git:
  "\<not> in_git_ok e \<Longrightarrow>
     installFromSource h s d n e =
       (Rejected (JsError (git_missing_msg h)),
        emitLog h (s\<lparr>trace := trace s @ [ExecSync ''git --version'']\<rparr>) (git_missing_msg h))"
  by (simp add: installFromSource_def isGitAvailable_def)

lemma installFromSource_git:
  assumes "in_git_ok e"
  shows "\<exists>s6. execs (trace s6) = execs (trace s)
          \<and> installFromSource h s d n e =
              (case run_steps h e 0 (install_steps d n (findNpmPath h (ensure_node h (snd (isGitAvailable s e)) e))) s6 of
                 (Rejected err, s7) \<Rightarrow> (Rejected err, s7)
               | (Resolved, s7) \<Rightarrow>
                   (Resolved, onProgress (emitLog h s7 ''Installation complete!'') ''Installation complete!''))"
proof -
  let ?s0 = "snd (isGitAvailable s e)"
  let ?s1 = "ensure_node h ?s0 e"
  let ?npm = "findNpmPath h ?s1"
  let ?s3 = "emitLog h (emitLog h ?s1 (''Using Node.js: '' @ in_nodePath e)) (''Using npm: '' @ ?npm)"
  let ?s6 = "onProgress (backup_existing h (onProgress ?s3 ''Preparing installation...'') d) ''Cloning repository...''"
  have "execs (trace ?s6) = execs (trace s)"
    by (simp add: isGitAvailable_def)
  moreover have "installFromSource h s d n e =
      (case run_steps h e 0 (install_steps d n ?npm) ?s6 of
         (Rejected err, s7) \<Rightarrow> (Rejected err, s7)
       | (Resolved, s7) \<Rightarrow>
           (Resolved, onProgress (emitLog h s7 ''Installation complete!'') ''Installation complete!''))"
    using assms unfolding installFromSource_def isGitAvailable_def Let_def by simp
  ultimately show ?thesis by blast
qed

lemma third_fails_npm:
  "findNpmPath linux_host (ensure_node linux_host (snd (isGitAvailable (initial_state {} 7) e)) third_fails) = ''npm''"
  by (simp add: findNpmPath_def ensure_node_def hasBundledNode_def existsSync_def isGitAvailable_def
        third_fails_def initial_state_def Let_def onProgress_def linux_host_def)

subsection \<open>Reachable states, the ring of log lines, the readiness window\<close>

lemma isInstalled_view:
  "install_view s' = install_view s \<Longrightarrow> isInstalled h s' = isInstalled h s"
  by (cases "currentEnv s")
     (simp_all add: install_view_def isInstalled_def getPC2NodeDir_def existsSync_def Let_def)

lemma install_view_emit [simp]:
  "install_view (emitLog h s m) = install_view s"
  "install_view (emitStatus s st) = install_view s"
  by (simp_all add: install_view_def)

lemma install_view_foldl_emitLog [simp]:
  "install_view (foldl (\<lambda>s' l. emitLog h s' (f l)) s ls) = install_view s"
  by (induction ls arbitrary: s) simp_all

lemma install_view_event [simp]:
  "install_view (handle_event h s ev) = install_view s"
proof (cases ev)
  case (StdoutData d)
  then show ?thesis using install_view_foldl_emitLog [where f = "\<lambda>l. l"] by (simp add: on_stdout_def)
next
  case (StderrData d)
  then show ?thesis by (simp add: on_stderr_def)
next
  case (ErrorEvent m)
  have "install_view (on_error h s m) = install_view (emitLog h (emitStatus s Error) (''Failed to start PC2: '' @ m))"
    unfolding on_error_def by (simp add: install_view_def)
  with ErrorEvent show ?thesis by simp
next
  case (ExitEvent code sig)
  have "\<And>s1. install_view (emitStatus (s1\<lparr>pc2Process := None\<rparr>) Stopped) = install_view s1"
    by (simp add: install_view_def)
  with ExitEvent show ?thesis
    by (simp add: on_exit_def Let_def split: option.splits)
qed

lemma install_view_events [simp]:
  "install_view (foldl (handle_event h) s evs) = install_view s"
  by (induction evs arbitrary: s) simp_all

lemma install_view_misc [simp]:
  "install_view (spawn_child h s c a d) = install_view s"
  "install_view (kill_tracked s sig b) = install_view s"
  "install_view (s\<lparr>pc2Process := x\<rparr>) = install_view s"
  "install_view (s\<lparr>now := t\<rparr>) = install_view s"
  "install_view (s\<lparr>trace := tr\<rparr>) = install_view s"
  by (simp_all add: install_view_def spawn_child_def kill_tracked_def split: option.splits)

lemma install_view_wait:
  "waitForServer s ps = (r, s') \<Longrightarrow> install_view s' = install_view s"
  by (auto simp: waitForServer_def install_view_def split: prod.splits)

lemma install_view_spawn_phase [simp]:
  "install_view (spawn_phase h s nodeDir e) = install_view s"
  by (simp add: spawn_phase_def Let_def)

lemma install_view_spawn_and_wait:
  "install_view (snd (spawn_and_wait h s nodeDir e)) = install_view s"
proof -
  obtain r s6 where w: "waitForServer (spawn_phase h s nodeDir e) (se_probes e) = (r, s6)"
    by (cases "waitForServer (spawn_phase h s nodeDir e) (se_probes e)")
  from install_view_wait [OF w] have v: "install_view s6 = install_view s" by simp
  show ?thesis
  proof (cases r)
    case True
    with w v show ?thesis by (simp add: spawn_and_wait_def Let_def start_ready_def)
  next
    case False
    with w v show ?thesis by (simp add: spawn_and_wait_def Let_def start_failed_def)
  qed
qed

lemma install_view_start [simp]:
  "install_view (snd (startPC2 h s e)) = install_view s"
  by (simp add: startPC2_def Let_def install_view_spawn_and_wait)

lemma install_view_stop [simp]:
  "install_view (snd (stopPC2 h s e)) = install_view s"
  by (simp add: stopPC2_def stopPC2_begin_def stopPC2_timer_def stopPC2_port_def Let_def)

lemma startPC2_not_installed_handle:
  "\<not> isInstalled h s \<Longrightarrow> pc2Process (snd (startPC2 h s e)) = pc2Process s"
  by (simp add: startPC2_def Let_def)

lemma tracked_installed_call:
  assumes "pc2Process s \<noteq> None \<longrightarrow> isInstalled h s"
  shows "pc2Process (do_call h s c) \<noteq> None \<longrightarrow> isInstalled h (do_call h s c)"
proof (cases c)
  case (CallStart e)
  have "isInstalled h (snd (startPC2 h s e)) = isInstalled h s"
    by (rule isInstalled_view) simp
  with assms CallStart startPC2_not_installed_handle [of h s e] show ?thesis by auto
next
  case (CallStop e)
  have "isInstalled h (snd (stopPC2 h s e)) = isInstalled h s"
    by (rule isInstalled_view) simp
  with assms CallStop show ?thesis by (auto simp: stopPC2_handle split: if_splits)
next
  case (ChildEvent ev)
  have "isInstalled h (handle_event h s ev) = isInstalled h s"
    by (rule isInstalled_view) simp
  with assms ChildEvent handle_event_handle [of h s ev] show ?thesis by auto
qed

lemma tracked_installed_run:
  "pc2Process s \<noteq> None \<longrightarrow> isInstalled h s \<Longrightarrow>
     pc2Process (run h s cs) \<noteq> None \<longrightarrow> isInstalled h (run h s cs)"
  unfolding run_def
proof (induction cs arbitrary: s)
  case Nil
  then show ?case by simp
next
  case (Cons c cs)
  from Cons.IH [OF tracked_installed_call [OF Cons.prems]] show ?case by simp
qed

lemma tracked_alive_tracked: "tracked_alive s \<Longrightarrow> pc2Process s \<noteq> None"
  by (auto simp: tracked_alive_def split: option.splits)

lemma reachable_tracked_installed:
  "tracked_alive (run h (initial_state fs t) cs) \<Longrightarrow> isInstalled h (run h (initial_state fs t) cs)"
proof -
  have "pc2Process (initial_state fs t) \<noteq> None \<longrightarrow> isInstalled h (initial_state fs t)"
    by (simp add: initial_state_def)
  from tracked_installed_run [OF this, of cs] show
    "tracked_alive (run h (initial_state fs t) cs) \<Longrightarrow> isInstalled h (run h (initial_state fs t) cs)"
    by (auto dest: tracked_alive_tracked)
qed

lemma initial_tracks_latest: "tracks_latest (initial_state fs t)"
  by (simp add: tracks_latest_def initial_state_def)

lemma emitLog_below_capacity:
  "length (logBuffer s) < 500 \<Longrightarrow> logBuffer (emitLog h s m) = logBuffer s @ [logMessage h s m]"
  by (simp add: emitLog_buffer MAX_LOG_LINES_def)

lemma foldl_emitLog_now [simp]: "now (foldl (emitLog h) s ms) = now s"
  by (induction ms arbitrary: s) simp_all

lemma logMessage_now: "now s' = now s \<Longrightarrow> logMessage h s' m = logMessage h s m"
  by (simp add: logMessage_def)

lemma tl_drop_Suc: "tl (drop k xs) = drop (Suc k) xs"
  by (simp add: drop_Suc tl_drop)

lemma drop_snoc_window:
  "500 \<le> length xs \<Longrightarrow> drop (Suc (length xs - 500)) xs @ [x] = drop (length (xs @ [x]) - 500) (xs @ [x])"
proof -
  assume "500 \<le> length xs"
  then have "Suc (length xs - 500) = length xs - 499" by arith
  then show ?thesis by simp
qed

lemma foldl_emitLog_buffer:
  "length (logBuffer s) \<le> 500 \<Longrightarrow>
     logBuffer (foldl (emitLog h) s ms)
       = drop (length (logBuffer s @ map (logMessage h s) ms) - 500)
           (logBuffer s @ map (logMessage h s) ms)"
proof (induction ms rule: rev_induct)
  case Nil
  then show ?case by simp
next
  case (snoc m ms)
  define all where "all = logBuffer s @ map (logMessage h s) ms"
  define s' where "s' = foldl (emitLog h) s ms"
  have buf: "logBuffer s' = drop (length all - 500) all"
    using snoc unfolding all_def s'_def by blast
  have msg: "logMessage h s' m = logMessage h s m"
    unfolding s'_def by (rule logMessage_now) simp
  have goal: "logBuffer (emitLog h s' m)
                = drop (length (all @ [logMessage h s m]) - 500) (all @ [logMessage h s m])"
  proof (cases "length all < 500")
    case True
    with buf have "logBuffer s' = all" by simp
    with True msg show ?thesis
      by (simp add: emitLog_buffer MAX_LOG_LINES_def)
  next
    case False
    then have big: "500 \<le> length all" by simp
    then have len: "length (logBuffer s') = 500" using buf by simp
    then have ne: "logBuffer s' \<noteq> []" by auto
    have "logBuffer (emitLog h s' m) = tl (logBuffer s') @ [logMessage h s m]"
      using len ne msg by (simp add: emitLog_buffer MAX_LOG_LINES_def)
    also have "tl (logBuffer s') = drop (Suc (length all - 500)) all"
      unfolding buf by (rule tl_drop_Suc)
    also have "\<dots> @ [logMessage h s m]
                 = drop (length (all @ [logMessage h s m]) - 500) (all @ [logMessage h s m])"
      using big by (rule drop_snoc_window)
    finally show ?thesis .
  qed
  have "foldl (emitLog h) s (ms @ [m]) = emitLog h s' m" by (simp add: s'_def)
  moreover have "logBuffer s @ map (logMessage h s) (ms @ [m]) = all @ [logMessage h s m]"
    by (simp add: all_def)
  ultimately show ?case using goal by (simp only:)
qed

lemma probe_time_le: "probe_time p \<le> 2000"
  by (simp add: probe_time_def)

lemma request_start_lower: "1000 * i \<le> request_start ps i"
  by (induction i) simp_all

lemma waitForServer_loop_window:
  "(\<And>j. request_start probes j < timeout \<Longrightarrow> \<not> probe_ok (probes j)) \<Longrightarrow>
   elapsed = request_start probes i \<Longrightarrow> elapsed < timeout + 3000 \<Longrightarrow>
     \<exists>el n. waitForServer_loop probes timeout elapsed i = (False, el, n)
            \<and> timeout \<le> el \<and> el < timeout + 3000"
proof (induction probes timeout elapsed i rule: waitForServer_loop.induct)
  case (1 probes timeout elapsed i)
  show ?case
  proof (cases "elapsed < timeout")
    case True
    with "1.prems" have nok: "\<not> probe_ok (probes i)" by simp
    have next_start: "elapsed + probe_time (probes i) + 1000 = request_start probes (Suc i)"
      using "1.prems"(2) by simp
    have bound: "elapsed + probe_time (probes i) + 1000 < timeout + 3000"
      using True probe_time_le [of "probes i"] by arith
    from "1.IH" [OF True nok "1.prems"(1) next_start bound]
    obtain el n where
      "waitForServer_loop probes timeout (elapsed + probe_time (probes i) + 1000) (Suc i) = (False, el, n)"
      "timeout \<le> el" "el < timeout + 3000"
      by blast
    with True nok show ?thesis
      by (subst waitForServer_loop.simps) simp
  next
    case False
    with "1.prems"(3) show ?thesis by (subst waitForServer_loop.simps) simp
  qed
qed

lemma waitForServer_window:
  assumes "\<And>j. request_start ps j < 30000 \<Longrightarrow> \<not> probe_ok (ps j)"
  shows "\<exists>s'. waitForServer s ps = (False, s') \<and> now s + 30000 \<le> now s' \<and> now s' < now s + 33000
           \<and> pc2Process s' = pc2Process s \<and> statusEvents s' = statusEvents s
           \<and> nextPid s' = nextPid s"
proof -
  have "\<exists>el n. waitForServer_loop ps 30000 0 0 = (False, el, n) \<and> 30000 \<le> el \<and> el < 30000 + 3000"
    by (rule waitForServer_loop_window) (use assms in simp_all)
  then obtain el n where "waitForServer_loop ps 30000 0 0 = (False, el, n)" "30000 \<le> el" "el < 33000"
    by auto
  then show ?thesis by (simp add: waitForServer_def)
qed

subsection \<open>The claims\<close>

text \<open>
  C4.  \<open>emitLog\<close> puts the stamped line at the end of the buffer; below 500 lines
  nothing else changes, and on a full buffer (500 lines) exactly the oldest line is
  dropped.  So appending never leaves more than 500 lines, once or any number of
  times, and after any number of appends the buffer holds the last 500 of all lines, in
  the order they were appended.  Every line goes to the log listeners once.
  \<open>getLogs n\<close>, for \<open>0 < n\<close> below the buffer's length, is the newline-joined last \<open>n\<close>
  lines of the buffer, in that order.
\<close>

theorem log_buffer_bounded_fifo:
  "(length (logBuffer s) \<le> 500 \<longrightarrow> length (logBuffer (emitLog h s m)) \<le> 500)
   \<and> (length (logBuffer s) \<le> 500 \<longrightarrow> length (logBuffer (foldl (emitLog h) s ms)) \<le> 500)
   \<and> (length (logBuffer s) < 500 \<longrightarrow>
        logBuffer (emitLog h s m) = logBuffer s @ [logMessage h s m])
   \<and> (length (logBuffer s) = 500 \<longrightarrow>
        logBuffer (emitLog h s m) = tl (logBuffer s) @ [logMessage h s m])
   \<and> (length (logBuffer s) \<le> 500 \<longrightarrow>
        logBuffer (foldl (emitLog h) s ms)
          = drop (length (logBuffer s @ map (logMessage h s) ms) - 500)
              (logBuffer s @ map (logMessage h s) ms))
   \<and> logEvents (emitLog h s m) = logEvents s @ [logMessage h s m]
   \<and> (0 < n \<and> n < int (length (logBuffer s)) \<longrightarrow>
        getLogs s n = join [CHR 0x0A] (drop (length (logBuffer s) - nat n) (logBuffer s))
        \<and> length (drop (length (logBuffer s) - nat n) (logBuffer s)) = nat n)"
proof (intro conjI impI)
  assume "length (logBuffer s) \<le> 500"
  then show "length (logBuffer (emitLog h s m)) \<le> 500"
    by (simp add: emitLog_buffer MAX_LOG_LINES_def)
next
  assume "length (logBuffer s) \<le> 500"
  then show "length (logBuffer (foldl (emitLog h) s ms)) \<le> 500"
    by (induction ms arbitrary: s) (simp_all add: emitLog_buffer MAX_LOG_LINES_def)
next
  assume "length (logBuffer s) < 500"
  then show "logBuffer (emitLog h s m) = logBuffer s @ [logMessage h s m]"
    by (rule emitLog_below_capacity)
next
  assume full: "length (logBuffer s) = 500"
  then have "logBuffer s \<noteq> []" by auto
  with full show "logBuffer (emitLog h s m) = tl (logBuffer s) @ [logMessage h s m]"
    by (simp add: emitLog_buffer MAX_LOG_LINES_def)
next
  assume "length (logBuffer s) \<le> 500"
  then show "logBuffer (foldl (emitLog h) s ms)
          = drop (length (logBuffer s @ map (logMessage h s) ms) - 500)
              (logBuffer s @ map (logMessage h s) ms)"
    by (rule foldl_emitLog_buffer)
next
  show "logEvents (emitLog h s m) = logEvents s @ [logMessage h s m]"
    by (simp add: emitLog_def Let_def)
next
  assume n: "0 < n \<and> n < int (length (logBuffer s))"
  then show "getLogs s n = join [CHR 0x0A] (drop (length (logBuffer s) - nat n) (logBuffer s))"
    by (simp add: getLogs_def slice_from_recent)
  from n show "length (drop (length (logBuffer s) - nat n) (logBuffer s)) = nat n"
    by simp linarith
qed

theorem log_buffer_bounded_fifo_witness:
  "length (logBuffer full_state) \<le> 500
   \<and> length (logBuffer (emitLog linux_host full_state ''y'')) \<le> 500
   \<and> length (logBuffer full_state) = 500
   \<and> logBuffer (emitLog linux_host full_state ''y'') = tl (logBuffer full_state) @ [''[12:00:00] y'']
   \<and> (0::int) < 3 \<and> 3 < int (length (logBuffer full_state))
   \<and> getLogs full_state 3 = join [CHR 0x0A] (replicate 3 ''[12:00:00] x'')
   \<and> length (logBuffer (initial_state {} 0)) < 500
   \<and> logBuffer (emitLog linux_host (initial_state {} 0) ''a'') = [''[12:00:00] a'']
   \<and> logBuffer two_lines = [''[12:00:00] a'', ''[12:00:00] b'']
   \<and> logBuffer (foldl (emitLog linux_host) (initial_state {} 0) [''a'', ''b'']) = [''[12:00:00] a'', ''[12:00:00] b'']
   \<and> getLogs two_lines 1 = ''[12:00:00] b''"
  using log_buffer_bounded_fifo [where s = full_state and h = linux_host and m = "''y''" and n = 3
          and ms = "[''y'', ''z'']"]
        log_buffer_bounded_fifo [where s = "initial_state {} 0" and h = linux_host and m = "''a''" and n = 3
          and ms = "[''a'', ''b'']"]
        log_buffer_bounded_fifo [where s = two_lines and h = linux_host and m = "''a''" and n = 1
          and ms = "[]"]
  by (simp add: full_state_def two_lines_def initial_state_def logMessage_def linux_host_def
        emitLog_def MAX_LOG_LINES_def Let_def)

text \<open>
  C10, as claimed: \<open>getLogs n\<close> for \<open>n\<close> at or below minus the buffer's length gives the
  whole buffer.  It does not: on a buffer of two lines \<open>getLogs (-2)\<close> is \<open>slice(2)\<close>, the
  empty array.
\<close>

theorem getLogs_negative_counterexample:
  "(- 2 :: int) \<le> - int (length (logBuffer two_lines))
   \<and> getLogs two_lines (- 2) \<noteq> join [CHR 0x0A] (logBuffer two_lines)"
  by (simp add: two_lines_def emitLog_def initial_state_def logMessage_def linux_host_def
        MAX_LOG_LINES_def getLogs_def slice_from_def Let_def)

text \<open>
  C10, amended: \<open>getLogs 0\<close> gives the whole buffer joined with newlines, since
  \<open>slice(-0)\<close> is \<open>slice(0)\<close>; so does \<open>getLogs n\<close> for every \<open>n\<close> at or above the buffer's
  length; for \<open>n\<close> at or below minus the buffer's length the slice starts at or beyond
  the end and the result is the empty string.
\<close>

theorem getLogs_whole_or_empty:
  "getLogs s 0 = join [CHR 0x0A] (logBuffer s)
   \<and> (int (length (logBuffer s)) \<le> n \<longrightarrow> getLogs s n = join [CHR 0x0A] (logBuffer s))
   \<and> (m \<le> - int (length (logBuffer s)) \<longrightarrow> getLogs s m = [])"
  by (auto simp: getLogs_def slice_from_def Let_def max_def)

theorem getLogs_whole_or_empty_witness:
  "getLogs two_lines 0 = ''[12:00:00] a'' @ [CHR 0x0A] @ ''[12:00:00] b''
   \<and> int (length (logBuffer two_lines)) \<le> 7
   \<and> getLogs two_lines 7 = ''[12:00:00] a'' @ [CHR 0x0A] @ ''[12:00:00] b''
   \<and> (- 2 :: int) \<le> - int (length (logBuffer two_lines))
   \<and> getLogs two_lines (- 2) = []"
  using getLogs_whole_or_empty [of two_lines 7 "- 2"]
  by (simp add: two_lines_def emitLog_def initial_state_def logMessage_def linux_host_def
        MAX_LOG_LINES_def Let_def)

text \<open>
  C7.  The \<open>'exit'\<close> handler, run on any state the supervisor is in (also after
  \<open>'running'\<close> was reached, also in the middle of any sequence of calls), leaves no
  tracked handle and emits \<open>'stopped'\<close> as the last status.
\<close>

theorem child_exit_clears_handle:
  "pc2Process (on_exit h s code sig) = None
   \<and> statusEvents (on_exit h s code sig) = statusEvents s @ [Stopped]
   \<and> pc2Process (run h s (cs @ [ChildEvent (ExitEvent code sig)])) = None
   \<and> last (statusEvents (run h s (cs @ [ChildEvent (ExitEvent code sig)]))) = Stopped"
  by (simp add: run_def)

theorem child_exit_clears_handle_witness:
  "pc2Process running_state = Some \<lparr>pid = 0, killed = False\<rparr>
   \<and> last (statusEvents running_state) = Running
   \<and> pc2Process (on_exit linux_host running_state (Some 1) None) = None
   \<and> statusEvents (on_exit linux_host running_state (Some 1) None) = [Starting, Running, Stopped]"
  using child_exit_clears_handle [of linux_host running_state "Some 1" None "[]"]
  by (simp add: running_state_eq)

text \<open>
  C1.  After every sequence of \<open>startPC2\<close> and \<open>stopPC2\<close> calls from the freshly loaded
  module, with events of the child in between, the tracked child, if there is one, is
  the child spawned last; and when a child is tracked and not killed, a further
  \<open>startPC2\<close> resolves at once and does nothing but emit the log line ``PC2 is
  already running'': no child is spawned and the tracked handle, the emitted statuses
  and the actions on the host are as before.  (A child is only ever tracked where the
  service is installed, and these calls change neither the files nor the environment.)
  On any state at all, a \<open>startPC2\<close> over a tracked, not killed child spawns nothing
  and keeps the handle.
\<close>

theorem start_guard:
  "(tracked_alive (run h (initial_state fs t) cs) \<longrightarrow>
      startPC2 h (run h (initial_state fs t) cs) e
        = (Resolved, emitLog h (run h (initial_state fs t) cs) ''PC2 is already running'')
      \<and> pc2Process (run h (initial_state fs t) (cs @ [CallStart e])) = pc2Process (run h (initial_state fs t) cs)
      \<and> statusEvents (run h (initial_state fs t) (cs @ [CallStart e])) = statusEvents (run h (initial_state fs t) cs)
      \<and> trace (run h (initial_state fs t) (cs @ [CallStart e])) = trace (run h (initial_state fs t) cs)
      \<and> nextPid (run h (initial_state fs t) (cs @ [CallStart e])) = nextPid (run h (initial_state fs t) cs)
      \<and> logEvents (run h (initial_state fs t) (cs @ [CallStart e]))
          = logEvents (run h (initial_state fs t) cs)
            @ [logMessage h (run h (initial_state fs t) cs) ''PC2 is already running''])
   \<and> tracks_latest (run h (initial_state fs t) cs)
   \<and> (tracked_alive s \<longrightarrow>
      fst (startPC2 h s e) = Resolved
      \<and> pc2Process (snd (startPC2 h s e)) = pc2Process s
      \<and> nextPid (snd (startPC2 h s e)) = nextPid s
      \<and> trace (snd (startPC2 h s e)) = trace s)
   \<and> (tracked_alive s \<and> isInstalled h s \<longrightarrow>
        startPC2 h s e = (Resolved, emitLog h s ''PC2 is already running'')
        \<and> statusEvents (snd (startPC2 h s e)) = statusEvents s)
   \<and> (tracked_alive (run h s cs) \<longrightarrow>
        pc2Process (run h s (cs @ [CallStart e])) = pc2Process (run h s cs)
        \<and> trace (run h s (cs @ [CallStart e])) = trace (run h s cs))
   \<and> (tracks_latest s \<longrightarrow> tracks_latest (run h s cs))"
proof -
  let ?r = "run h (initial_state fs t) cs"
  have reach: "startPC2 h ?r e = (Resolved, emitLog h ?r ''PC2 is already running'')"
    if "tracked_alive ?r"
    using that reachable_tracked_installed [OF that] by (simp add: startPC2_tracked)
  have step: "run h (initial_state fs t) (cs @ [CallStart e]) = snd (startPC2 h ?r e)"
    by (simp add: run_def)
  have latest: "tracks_latest ?r"
    by (rule tracks_latest_run) (rule initial_tracks_latest)
  have inv: "tracks_latest s \<longrightarrow> tracks_latest (run h s cs)"
    by (simp add: tracks_latest_run)
  have ev: "logEvents (emitLog h ?r ''PC2 is already running'')
              = logEvents ?r @ [logMessage h ?r ''PC2 is already running'']"
    by (simp add: emitLog_def Let_def)
  show ?thesis
    using reach step latest inv ev
    by (auto simp: startPC2_tracked run_def)
qed

theorem start_guard_witness:
  "tracked_alive (run linux_host (initial_state installed_files 0) [CallStart (quiet_start (\<lambda>i. ok_probe))])
   \<and> run linux_host (initial_state installed_files 0) [CallStart (quiet_start (\<lambda>i. ok_probe))] = running_state
   \<and> startPC2 linux_host running_state (quiet_start (\<lambda>i. refused_probe))
       = (Resolved, emitLog linux_host running_state ''PC2 is already running'')
   \<and> pc2Process (run linux_host (initial_state installed_files 0)
         [CallStart (quiet_start (\<lambda>i. ok_probe)), CallStart (quiet_start (\<lambda>i. refused_probe))])
       = Some \<lparr>pid = 0, killed = False\<rparr>
   \<and> statusEvents (run linux_host (initial_state installed_files 0)
         [CallStart (quiet_start (\<lambda>i. ok_probe)), CallStart (quiet_start (\<lambda>i. refused_probe))])
       = [Starting, Running]
   \<and> tracked_alive running_state \<and> isInstalled linux_host running_state
   \<and> tracks_latest running_state
   \<and> tracks_latest (run linux_host running_state [CallStop quiet_stop, CallStart (quiet_start (\<lambda>i. ok_probe))])"
proof -
  have r: "run linux_host (initial_state installed_files 0) [CallStart (quiet_start (\<lambda>i. ok_probe))] = running_state"
    by (simp add: run_def running_state_def)
  have l: "tracks_latest running_state"
    by (simp add: running_state_eq tracks_latest_def)
  from r l running_tracked running_installed
    start_guard [where h = linux_host and fs = installed_files and t = 0
      and cs = "[CallStart (quiet_start (\<lambda>i. ok_probe))]" and e = "quiet_start (\<lambda>i. refused_probe)"
      and s = running_state]
    start_guard [where h = linux_host and fs = installed_files and t = 0
      and cs = "[CallStop quiet_stop, CallStart (quiet_start (\<lambda>i. ok_probe))]"
      and e = "quiet_start (\<lambda>i. refused_probe)" and s = running_state]
  show ?thesis by (simp add: running_state_eq)
qed

text \<open>
  C2, amended.  \<open>stopPC2\<close> always resolves, and the last status it emits is
  \<open>'stopped'\<close>.  When nothing is tracked, or the tracked child is not yet killed, no
  handle is tracked afterwards.  When the tracked handle is already marked killed (a
  stop is in flight), the call takes the port branch and leaves the handle as it is.
  None of this depends on what the host answers (signals delivered or not, events of
  the child, a process on the port or not).
\<close>

theorem stop_always_stopped:
  "fst (stopPC2 h s e) = Resolved
   \<and> last (statusEvents (snd (stopPC2 h s e))) = Stopped
   \<and> (pc2Process s = None \<or> tracked_alive s \<longrightarrow> pc2Process (snd (stopPC2 h s e)) = None)
   \<and> (pc2Process s \<noteq> None \<and> \<not> tracked_alive s \<longrightarrow>
        pc2Process (snd (stopPC2 h s e)) = pc2Process s
        \<and> trace (snd (stopPC2 h s e)) = trace s @ [Exec (port_kill_cmd h)])"
  by (auto simp: stopPC2_handle) (simp add: stopPC2_def stopPC2_begin_def stopPC2_port_def Let_def)

theorem stop_always_stopped_witness:
  "tracked_alive running_state
   \<and> fst (stopPC2 linux_host running_state quiet_stop) = Resolved
   \<and> last (statusEvents (snd (stopPC2 linux_host running_state quiet_stop))) = Stopped
   \<and> pc2Process (snd (stopPC2 linux_host running_state quiet_stop)) = None
   \<and> pc2Process (initial_state {} 0) = None
   \<and> pc2Process (snd (stopPC2 linux_host (initial_state {} 0) quiet_stop)) = None
   \<and> pc2Process stopping_state \<noteq> None \<and> \<not> tracked_alive stopping_state
   \<and> pc2Process (snd (stopPC2 linux_host stopping_state quiet_stop)) = pc2Process stopping_state"
  using stop_always_stopped [where h = linux_host and s = running_state and e = quiet_stop]
        stop_always_stopped [where h = linux_host and s = "initial_state {} 0" and e = quiet_stop]
        stop_always_stopped [where h = linux_host and s = stopping_state and e = quiet_stop]
  by (simp add: running_state_eq tracked_alive_def initial_state_def stopping_state_handle)

text \<open>
  C2, as claimed: from every starting state the handle is cleared.  It is not when
  \<open>stopPC2\<close> is called again while the first call waits for its timer: the handle is
  marked killed, the second call runs the port command and resolves with the handle
  still tracked.
\<close>

theorem stop_leaves_killed_handle_counterexample:
  "pc2Process (snd (stopPC2 linux_host stopping_state quiet_stop)) = Some \<lparr>pid = 0, killed = True\<rparr>"
  by (simp add: stopPC2_handle tracked_alive_def stopping_state_handle)

text \<open>
  C3.  \<open>getStatus\<close>: without the marker \<open>dist/index.js\<close> under the service root the
  answer is \<open>'not-installed'\<close> and the state is untouched (no request, no look at the
  process).  With the service installed (root and marker exist) there is exactly one
  request to the health endpoint, bounded by 2000 ms; a 2xx answer in time gives
  \<open>'running'\<close>; else a tracked, not killed child gives \<open>'starting'\<close>; else \<open>'stopped'\<close>.
  No other value comes out, whatever the request does, and the tracked handle and the
  emitted statuses are never changed.
\<close>

theorem getStatus_decision:
  "(\<not> existsSync s (path_join h [getPC2NodeDir h s, ''dist'', ''index.js'']) \<longrightarrow>
      getStatus h s p = (NotInstalled, s))
   \<and> (isInstalled h s \<and> probe_ok p \<longrightarrow> fst (getStatus h s p) = Running)
   \<and> (isInstalled h s \<and> \<not> probe_ok p \<and> tracked_alive s \<longrightarrow> fst (getStatus h s p) = Starting)
   \<and> (isInstalled h s \<and> \<not> probe_ok p \<and> \<not> tracked_alive s \<longrightarrow> fst (getStatus h s p) = Stopped)
   \<and> (isInstalled h s \<longrightarrow>
        trace (snd (getStatus h s p)) = trace s @ [Fetch health_url]
        \<and> now (snd (getStatus h s p)) \<le> now s + 2000)
   \<and> fst (getStatus h s p) \<in> {NotInstalled, Running, Starting, Stopped}
   \<and> pc2Process (snd (getStatus h s p)) = pc2Process s
   \<and> statusEvents (snd (getStatus h s p)) = statusEvents s"
proof (intro conjI impI)
  assume "\<not> existsSync s (path_join h [getPC2NodeDir h s, ''dist'', ''index.js''])"
  then have "\<not> isInstalled h s" by (simp add: isInstalled_def Let_def)
  then show "getStatus h s p = (NotInstalled, s)" by (rule getStatus_not_installed)
next
  show "fst (getStatus h s p) \<in> {NotInstalled, Running, Starting, Stopped}"
    by (cases "isInstalled h s") (simp_all add: getStatus_not_installed getStatus_probe)
qed (simp_all add: getStatus_probe getStatus_reads_only fetch_health_def probe_time_def)

theorem getStatus_decision_witness:
  "\<not> existsSync switched_state (path_join linux_host [getPC2NodeDir linux_host switched_state, ''dist'', ''index.js''])
   \<and> getStatus linux_host switched_state ok_probe = (NotInstalled, switched_state)
   \<and> isInstalled linux_host running_state \<and> probe_ok ok_probe \<and> \<not> probe_ok refused_probe
   \<and> tracked_alive running_state
   \<and> fst (getStatus linux_host running_state ok_probe) = Running
   \<and> fst (getStatus linux_host running_state refused_probe) = Starting
   \<and> isInstalled linux_host (initial_state installed_files 0)
   \<and> \<not> tracked_alive (initial_state installed_files 0)
   \<and> fst (getStatus linux_host (initial_state installed_files 0) refused_probe) = Stopped
   \<and> trace (snd (getStatus linux_host (initial_state installed_files 0) refused_probe))
       = [Fetch health_url]"
proof -
  have a: "\<not> existsSync switched_state (path_join linux_host [getPC2NodeDir linux_host switched_state, ''dist'', ''index.js''])"
    by (simp add: switched_state_eq running_state_eq getPC2NodeDir_def existsSync_def
          installed_files_def linux_host_def path_join_def sepc_def)
  have b: "probe_ok ok_probe" "\<not> probe_ok refused_probe"
    by (simp_all add: probe_ok_def ok_probe_def refused_probe_def)
  have c: "isInstalled linux_host (initial_state installed_files 0)"
    by (simp add: initial_state_def isInstalled_def getPC2NodeDir_def existsSync_def
          installed_files_def linux_host_def path_join_def sepc_def)
  have d: "\<not> tracked_alive (initial_state installed_files 0)"
    by (simp add: initial_state_def tracked_alive_def)
  have e: "trace (initial_state installed_files 0) = []"
    by (simp add: initial_state_def)
  from a b c d e running_installed running_tracked
    getStatus_decision [where h = linux_host and s = switched_state and p = ok_probe]
    getStatus_decision [where h = linux_host and s = running_state and p = ok_probe]
    getStatus_decision [where h = linux_host and s = running_state and p = refused_probe]
    getStatus_decision [where h = linux_host and s = "initial_state installed_files 0" and p = refused_probe]
  show ?thesis by simp
qed

text \<open>
  C5.  When the path of the install root holds neither \<open>.pc2\<close> nor \<open>pc2.net\<close>,
  \<open>uninstallPC2\<close> rejects with the safety error and the whole state (tracked handle,
  emitted statuses, log, files, actions on the host) is as before.
\<close>

theorem uninstall_refuses_unrecognised_root:
  "\<not> includes_str (getPC2Dir h s) ''.pc2'' \<Longrightarrow> \<not> includes_str (getPC2Dir h s) ''pc2.net'' \<Longrightarrow>
     uninstallPC2 h s e = (Rejected safety_error, s)"
  by (simp add: uninstallPC2_def Let_def)

theorem uninstall_refuses_unrecognised_root_witness:
  "\<not> includes_str (getPC2Dir linux_host unrelated_state) ''.pc2''
   \<and> \<not> includes_str (getPC2Dir linux_host unrelated_state) ''pc2.net''
   \<and> pc2Process unrelated_state = Some \<lparr>pid = 0, killed = False\<rparr>
   \<and> uninstallPC2 linux_host unrelated_state \<lparr>un_probe = ok_probe, un_stop = quiet_stop\<rparr>
        = (Rejected safety_error, unrelated_state)"
proof -
  have a: "\<not> includes_str (getPC2Dir linux_host unrelated_state) ''.pc2''"
    by (simp add: unrelated_state_dir)
  have b: "\<not> includes_str (getPC2Dir linux_host unrelated_state) ''pc2.net''"
    by (simp add: unrelated_state_dir)
  have c: "pc2Process unrelated_state = Some \<lparr>pid = 0, killed = False\<rparr>"
    by (simp add: unrelated_state_def setEnvironment_def running_state_eq)
  from a b c uninstall_refuses_unrecognised_root [OF a b, of "\<lparr>un_probe = ok_probe, un_stop = quiet_stop\<rparr>"]
  show ?thesis by simp
qed

text \<open>
  C6.  When \<open>startPC2\<close> gets to spawn (the service is installed, no live child is
  tracked, the child raises no \<open>'error'\<close>) and none of the health requests sent within
  the window of 30000 ms is answered with 2xx in time (requests follow each other
  after at most 2000 ms and a sleep of 1000 ms; what the host would answer later does
  not matter), the call rejects with the error of \<open>waitForServer\<close>, at least 30000 ms
  and less than 33000 ms later, with \<open>'error'\<close> as the last status and no handle
  tracked; when the child has not exited meanwhile, the last action is the signal
  sent to it.
\<close>

theorem start_timeout_kills_and_rejects:
  assumes inst: "isInstalled h s" and free: "\<not> tracked_alive s"
    and never: "\<forall>i. request_start (se_probes e) i < 30000 \<longrightarrow> \<not> probe_ok (se_probes e i)"
    and spawned: "first_error (se_during_wait e) = None"
  shows "fst (startPC2 h s e) = Rejected timeout_error
         \<and> pc2Process (snd (startPC2 h s e)) = None
         \<and> last (statusEvents (snd (startPC2 h s e))) = Error
         \<and> now s + 30000 \<le> now (snd (startPC2 h s e))
         \<and> now (snd (startPC2 h s e)) < now s + 33000
         \<and> (data_only (se_during_wait e) \<longrightarrow>
              last (trace (snd (startPC2 h s e))) = Kill (nextPid s) SIGTERM)"
proof -
  define s0 where "s0 = emitLog h (emitStatus s Starting) (''Starting PC2 from '' @ getPC2NodeDir h s @ ''...'')"
  define s5 where "s5 = spawn_phase h s0 (getPC2NodeDir h s) e"
  from never have "\<And>j. request_start (se_probes e) j < 30000 \<Longrightarrow> \<not> probe_ok (se_probes e j)" by simp
  from waitForServer_window [where ps = "se_probes e" and s = s5, OF this] obtain s6 where
    w: "waitForServer s5 (se_probes e) = (False, s6)" and t: "now s5 + 30000 \<le> now s6"
    and u: "now s6 < now s5 + 33000"
    and p: "pc2Process s6 = pc2Process s5" by blast
  have start: "startPC2 h s e = (Rejected timeout_error, start_failed h s6 e)"
    using inst free spawned w
    by (simp add: startPC2_def spawn_and_wait_def Let_def settle_def s0_def s5_def)
  have cleared: "pc2Process (start_failed h s6 e) = None"
    using spawn_phase_handle [of h s0 "getPC2NodeDir h s" e] p
    by (auto simp: start_failed_result s5_def tracked_alive_def)
  have "now s5 = now s" by (simp add: s5_def s0_def spawn_phase_now)
  moreover have "now (start_failed h s6 e) = now s6"
    by (simp add: start_failed_def Let_def kill_tracked_def split: option.splits)
  ultimately have time: "now s + 30000 \<le> now (start_failed h s6 e)"
    "now (start_failed h s6 e) < now s + 33000" using t u by simp_all
  have killed: "last (trace (start_failed h s6 e)) = Kill (nextPid s) SIGTERM"
    if "data_only (se_during_wait e)"
  proof -
    from that have "pc2Process s5 = Some \<lparr>pid = nextPid s0, killed = False\<rparr>"
      unfolding s5_def by (rule spawn_phase_data_only)
    with p have "pc2Process s6 = Some \<lparr>pid = nextPid s, killed = False\<rparr>" by (simp add: s0_def)
    then show ?thesis by (simp add: start_failed_kills)
  qed
  from start cleared time killed show ?thesis by (simp add: start_failed_result)
qed

theorem start_timeout_kills_and_rejects_witness:
  "isInstalled linux_host (initial_state installed_files 0)
   \<and> \<not> tracked_alive (initial_state installed_files 0)
   \<and> \<not> probe_ok (late_host 0) \<and> \<not> probe_ok (late_host 29) \<and> probe_ok (late_host 30)
   \<and> request_start late_host 1 = 1001
   \<and> fst (startPC2 linux_host (initial_state installed_files 0) (quiet_start late_host))
       = Rejected (JsError ''Timeout waiting for server to start'')
   \<and> pc2Process (snd (startPC2 linux_host (initial_state installed_files 0) (quiet_start late_host))) = None
   \<and> last (statusEvents (snd (startPC2 linux_host (initial_state installed_files 0) (quiet_start late_host)))) = Error
   \<and> last (trace (snd (startPC2 linux_host (initial_state installed_files 0) (quiet_start late_host)))) = Kill 0 SIGTERM"
proof -
  have c: "isInstalled linux_host (initial_state installed_files 0)"
    by (simp add: initial_state_def isInstalled_def getPC2NodeDir_def existsSync_def
          installed_files_def linux_host_def path_join_def sepc_def)
  have d: "\<not> tracked_alive (initial_state installed_files 0)"
    by (simp add: initial_state_def tracked_alive_def)
  have n: "\<forall>i. request_start (se_probes (quiet_start late_host)) i < 30000
              \<longrightarrow> \<not> probe_ok (se_probes (quiet_start late_host) i)"
  proof (intro allI impI)
    fix i assume "request_start (se_probes (quiet_start late_host)) i < 30000"
    with request_start_lower [of i "se_probes (quiet_start late_host)"] have "i < 30" by simp
    then show "\<not> probe_ok (se_probes (quiet_start late_host) i)"
      by (simp add: quiet_start_def late_host_def probe_ok_def refused_probe_def)
  qed
  have f: "first_error (se_during_wait (quiet_start late_host)) = None"
    by (simp add: quiet_start_def)
  have g: "data_only (se_during_wait (quiet_start late_host))"
    by (simp add: quiet_start_def)
  have z: "nextPid (initial_state installed_files 0) = 0" by (simp add: initial_state_def)
  have p: "\<not> probe_ok (late_host 0)" "\<not> probe_ok (late_host 29)" "probe_ok (late_host 30)"
    by (simp_all add: late_host_def probe_ok_def refused_probe_def ok_probe_def)
  have r: "request_start late_host 1 = 1001"
    by (simp add: late_host_def probe_time_def refused_probe_def)
  from c d g z p r start_timeout_kills_and_rejects [OF c d n f] show ?thesis
    by (simp add: timeout_error_def)
qed




text \<open>
  C9.  \<open>installFromSource\<close> first runs \<open>git --version\<close>.  Without git it logs the
  remediation message and rejects with it: nothing is downloaded, moved or run
  afterwards.  With git, the commands it runs are, in this order, the clone, the
  install at the top level with \<open>--ignore-scripts\<close>, the install in the service
  directory, and the build; when all four end well the installation resolves, and when
  the \<open>k\<close>-th is the first to end in an error, exactly the commands up to it have run
  and the installation rejects with that error.
\<close>

theorem install_from_source_pipeline:
  fixes h s pc2Dir nodeDir e
  defines "r \<equiv> installFromSource h s pc2Dir nodeDir e"
    and "npm \<equiv> findNpmPath h (ensure_node h (snd (isGitAvailable s e)) e)"
    and "cmds \<equiv> step_cmds pc2Dir nodeDir
                  (findNpmPath h (ensure_node h (snd (isGitAvailable s e)) e))"
  shows "(\<not> in_git_ok e \<longrightarrow>
            r = (Rejected (JsError (git_missing_msg h)),
                 emitLog h (s\<lparr>trace := trace s @ [ExecSync ''git --version'']\<rparr>) (git_missing_msg h))
            \<and> execs (trace (snd r)) = execs (trace s) \<and> files (snd r) = files s)
         \<and> (in_git_ok e \<and> (\<forall>i < 4. in_step_error e i = None) \<longrightarrow>
              fst r = Resolved \<and> execs (trace (snd r)) = execs (trace s) @ cmds)
         \<and> (in_git_ok e \<and> k < 4 \<and> (\<forall>i < k. in_step_error e i = None) \<and> in_step_error e k = Some m \<longrightarrow>
              fst r = Rejected (JsError m) \<and> execs (trace (snd r)) = execs (trace s) @ take (Suc k) cmds)
         \<and> (cmds =
               [''git clone https://github.com/Elacity/pc2.net '' @ quoted pc2Dir,
                ''cd '' @ quoted pc2Dir @ '' && '' @ quoted npm @ '' install --legacy-peer-deps --ignore-scripts'',
                ''cd '' @ quoted nodeDir @ '' && '' @ quoted npm @ '' install --legacy-peer-deps'',
                ''cd '' @ quoted nodeDir @ '' && '' @ quoted npm @ '' run build''])"
proof (intro conjI impI)
  assume g: "\<not> in_git_ok e"
  then show "r = (Rejected (JsError (git_missing_msg h)),
                 emitLog h (s\<lparr>trace := trace s @ [ExecSync ''git --version'']\<rparr>) (git_missing_msg h))"
    unfolding r_def by (rule installFromSource_no_git)
  then show "execs (trace (snd r)) = execs (trace s)" "files (snd r) = files s" by simp_all
next
  assume a: "in_git_ok e \<and> (\<forall>i < 4. in_step_error e i = None)"
  let ?steps = "install_steps pc2Dir nodeDir (findNpmPath h (ensure_node h (snd (isGitAvailable s e)) e))"
  from a installFromSource_git [of e s h pc2Dir nodeDir] obtain s6 where
    t: "execs (trace s6) = execs (trace s)"
    and i: "r = (case run_steps h e 0 ?steps s6 of
                   (Rejected err, s7) \<Rightarrow> (Rejected err, s7)
                 | (Resolved, s7) \<Rightarrow>
                     (Resolved, onProgress (emitLog h s7 ''Installation complete!'') ''Installation complete!''))"
    unfolding r_def by blast
  from a have "\<forall>j < length ?steps. in_step_error e (0 + j) = None" by simp
  from run_steps_all_pass [OF this, of h s6] t i
  have "fst r = Resolved \<and> execs (trace (snd r)) = execs (trace s) @ cmds"
    by (cases "run_steps h e 0 ?steps s6") (simp add: cmds_def step_cmds_def)
  then show "fst r = Resolved" "execs (trace (snd r)) = execs (trace s) @ cmds" by simp_all
next
  assume a: "in_git_ok e \<and> k < 4 \<and> (\<forall>i < k. in_step_error e i = None) \<and> in_step_error e k = Some m"
  let ?steps = "install_steps pc2Dir nodeDir (findNpmPath h (ensure_node h (snd (isGitAvailable s e)) e))"
  from a installFromSource_git [of e s h pc2Dir nodeDir] obtain s6 where
    t: "execs (trace s6) = execs (trace s)"
    and i: "r = (case run_steps h e 0 ?steps s6 of
                   (Rejected err, s7) \<Rightarrow> (Rejected err, s7)
                 | (Resolved, s7) \<Rightarrow>
                     (Resolved, onProgress (emitLog h s7 ''Installation complete!'') ''Installation complete!''))"
    unfolding r_def by blast
  from a have "k < length ?steps" "\<forall>j < k. in_step_error e (0 + j) = None" "in_step_error e (0 + k) = Some m"
    by simp_all
  from run_steps_first_failure [OF this, of h s6] t i
  have "fst r = Rejected (JsError m) \<and> execs (trace (snd r)) = execs (trace s) @ take (Suc k) cmds"
    by (cases "run_steps h e 0 ?steps s6") (simp add: cmds_def step_cmds_def)
  then show "fst r = Rejected (JsError m)"
    "execs (trace (snd r)) = execs (trace s) @ take (Suc k) cmds" by simp_all
next
  show "cmds =
               [''git clone https://github.com/Elacity/pc2.net '' @ quoted pc2Dir,
                ''cd '' @ quoted pc2Dir @ '' && '' @ quoted npm @ '' install --legacy-peer-deps --ignore-scripts'',
                ''cd '' @ quoted nodeDir @ '' && '' @ quoted npm @ '' install --legacy-peer-deps'',
                ''cd '' @ quoted nodeDir @ '' && '' @ quoted npm @ '' run build'']"
    by (simp add: cmds_def npm_def step_cmds_def install_steps_def Let_def)
qed

theorem install_from_source_pipeline_witness:
  "\<not> in_git_ok no_git
   \<and> installFromSource linux_host (initial_state {} 7) ''/home/u/.pc2'' ''/home/u/.pc2/pc2-node'' no_git
       = (Rejected (JsError ''Git is not installed. Please install git and try again.''),
          emitLog linux_host ((initial_state {} 7)\<lparr>trace := [ExecSync ''git --version'']\<rparr>)
            ''Git is not installed. Please install git and try again.'')
   \<and> in_git_ok third_fails \<and> (2::nat) < 4
   \<and> in_step_error third_fails 0 = None \<and> in_step_error third_fails 1 = None
   \<and> in_step_error third_fails 2 = Some ''Command failed: npm install''
   \<and> fst (installFromSource linux_host (initial_state {} 7) ''/home/u/.pc2'' ''/home/u/.pc2/pc2-node'' third_fails)
       = Rejected (JsError ''Command failed: npm install'')
   \<and> execs (trace (snd (installFromSource linux_host (initial_state {} 7) ''/home/u/.pc2'' ''/home/u/.pc2/pc2-node'' third_fails)))
       = take 3 (step_cmds ''/home/u/.pc2'' ''/home/u/.pc2/pc2-node'' ''npm'')
   \<and> in_git_ok all_pass
   \<and> in_step_error all_pass 0 = None \<and> in_step_error all_pass 1 = None
   \<and> in_step_error all_pass 2 = None \<and> in_step_error all_pass 3 = None
   \<and> fst (installFromSource linux_host (initial_state {} 7) ''/home/u/.pc2'' ''/home/u/.pc2/pc2-node'' all_pass)
       = Resolved"
proof -
  have a: "\<not> in_git_ok no_git" "in_git_ok third_fails" "in_git_ok all_pass"
    by (simp_all add: no_git_def third_fails_def all_pass_def)
  have b: "\<forall>i < 2. in_step_error third_fails i = None"
    "in_step_error third_fails 2 = Some ''Command failed: npm install''"
    "\<forall>i < 4. in_step_error all_pass i = None"
    by (simp_all add: third_fails_def all_pass_def)
  have c: "execs (trace (initial_state {} 7)) = []" "trace (initial_state {} 7) = []"
    by (simp_all add: initial_state_def)
  have d: "git_missing_msg linux_host = ''Git is not installed. Please install git and try again.''"
    by (simp add: git_missing_msg_def linux_host_def)
  from a b c d third_fails_npm [of third_fails]
    install_from_source_pipeline [where h = linux_host and s = "initial_state {} 7"
      and ?pc2Dir = "''/home/u/.pc2''" and nodeDir = "''/home/u/.pc2/pc2-node''" and e = no_git
      and k = 0 and m = "[]"]
    install_from_source_pipeline [where h = linux_host and s = "initial_state {} 7"
      and ?pc2Dir = "''/home/u/.pc2''" and nodeDir = "''/home/u/.pc2/pc2-node''" and e = third_fails
      and k = 2 and m = "''Command failed: npm install''"]
    install_from_source_pipeline [where h = linux_host and s = "initial_state {} 7"
      and ?pc2Dir = "''/home/u/.pc2''" and nodeDir = "''/home/u/.pc2/pc2-node''" and e = all_pass
      and k = 0 and m = "[]"]
  show ?thesis by (simp add: eval_nat_numeral)
qed

end
